theory Spec2Isabelle
  imports Complex_Main "HOL-Library.Sublist"
begin

section \<open>Strings\<close>

text \<open>
  A JavaScript string is modelled as a \<^typ>\<open>string\<close>: the list of the bytes of its UTF-8
  encoding. Case-insensitive comparison therefore covers the ASCII letters, and the line
  terminators a regular expression's dot refuses are line feed and carriage return.
\<close>

primrec startsWith :: "string \<Rightarrow> string \<Rightarrow> bool" where
  "startsWith s [] = True"
| "startsWith s (p # ps) = (case s of [] \<Rightarrow> False | c # cs \<Rightarrow> c = p \<and> startsWith cs ps)"

definition endsWith :: "string \<Rightarrow> string \<Rightarrow> bool" where
  "endsWith s p = startsWith (rev s) (rev p)"

text \<open>\<open>String.prototype.includes\<close>: \<open>sub\<close> occurs in \<open>s\<close> at some position.\<close>

primrec includesStr :: "string \<Rightarrow> string \<Rightarrow> bool" where
  "includesStr [] sub = (sub = [])"
| "includesStr (c # cs) sub = (startsWith (c # cs) sub \<or> includesStr cs sub)"

definition toUpper :: "char \<Rightarrow> char" where
  "toUpper c = (if 97 \<le> (of_char c :: nat) \<and> (of_char c :: nat) \<le> 122
                then char_of ((of_char c :: nat) - 32) else c)"

definition isLineTerminator :: "char \<Rightarrow> bool" where
  "isLineTerminator c = (c = CHR 0x0A \<or> c = CHR 0x0D)"

definition isWhiteSpace :: "char \<Rightarrow> bool" where
  "isWhiteSpace c = (c = CHR '' '' \<or> c = CHR 0x09 \<or> c = CHR 0x0A \<or> c = CHR 0x0B
                     \<or> c = CHR 0x0C \<or> c = CHR 0x0D)"

definition trim :: "string \<Rightarrow> string" where
  "trim s = rev (dropWhile isWhiteSpace (rev (dropWhile isWhiteSpace s)))"

section \<open>Pattern matching (utils.ts, matchesPattern)\<close>

text \<open>
  \<open>pattern.replace(/[.+^${}()|[\]\\]/g, "\\$&")\<close>: each of the twelve listed characters
  gets a backslash in front. The question mark is not in the list.
\<close>

definition escapedChars :: "char list" where
  "escapedChars = [CHR ''.'', CHR ''+'', CHR ''^'', CHR ''$'', CHR ''{'', CHR ''}'', CHR ''('',
                   CHR '')'', CHR ''|'', CHR ''['', CHR '']'', CHR 0x5C]"

primrec escapeSpecials :: "string \<Rightarrow> string" where
  "escapeSpecials [] = []"
| "escapeSpecials (c # cs) =
     (if c \<in> set escapedChars then CHR 0x5C # c # escapeSpecials cs else c # escapeSpecials cs)"

text \<open>\<open>.replace(/\*/g, ".*")\<close> and, for the fallback, \<open>.replace(/\*/g, "")\<close>.\<close>

primrec starsToDotStar :: "string \<Rightarrow> string" where
  "starsToDotStar [] = []"
| "starsToDotStar (c # cs) =
     (if c = CHR ''*'' then CHR ''.'' # CHR ''*'' # starsToDotStar cs else c # starsToDotStar cs)"

definition removeStars :: "string \<Rightarrow> string" where
  "removeStars p = filter (\<lambda>c. c \<noteq> CHR ''*'') p"

definition regexPattern :: "string \<Rightarrow> string" where
  "regexPattern pattern = starsToDotStar (escapeSpecials pattern)"

text \<open>
  The regular expressions that \<open>new RegExp("^" + regexPattern + "$", "i")\<close> can be given:
  a sequence of terms, each an atom (an escaped character, a dot or a plain character)
  with an optional quantifier \<open>*\<close> or \<open>?\<close>, itself optionally followed by the
  lazy mark \<open>?\<close>. A quantifier with nothing to repeat (at the start, after the
  assertion \<open>^\<close>, or after a lazy mark) is the SyntaxError of the constructor: \<open>None\<close>.
\<close>

datatype atom = Lit char | AnyChar
datatype quant = Once | Star | Opt
type_synonym regex = "(atom \<times> quant) list"

text \<open>
  The constructor reads the text from left to right. \<open>Fresh\<close>: nothing to repeat (the
  start, just after the assertion \<open>^\<close>, or after a lazy mark); \<open>AfterAtom\<close>: a
  quantifier may follow; \<open>AfterQuant\<close>: only the lazy mark may follow; \<open>Escaping\<close>: a
  backslash was read.
\<close>

datatype pmode = Fresh | AfterAtom | AfterQuant | Escaping

definition setQuant :: "quant \<Rightarrow> regex \<Rightarrow> regex" where
  "setQuant q acc = (case acc of [] \<Rightarrow> [] | (a, _) # r \<Rightarrow> (a, q) # r)"

text \<open>The terms read so far are kept in reverse, the last one first.\<close>

primrec parseTerms :: "string \<Rightarrow> pmode \<Rightarrow> regex \<Rightarrow> regex option" where
  "parseTerms [] m acc = (if m = Escaping then None else Some (rev acc))"
| "parseTerms (c # cs) m acc =
     (if m = Escaping then parseTerms cs AfterAtom ((Lit c, Once) # acc)
      else if c = CHR 0x5C then parseTerms cs Escaping acc
      else if c = CHR ''*'' then
        (if m = AfterAtom then parseTerms cs AfterQuant (setQuant Star acc) else None)
      else if c = CHR ''?'' then
        (if m = AfterAtom then parseTerms cs AfterQuant (setQuant Opt acc)
         else if m = AfterQuant then parseTerms cs Fresh acc
         else None)
      else parseTerms cs AfterAtom ((if c = CHR ''.'' then AnyChar else Lit c, Once) # acc))"

text \<open>\<open>new RegExp("^" + body + "$", "i")\<close>, for a body as above.\<close>

definition compileAnchored :: "string \<Rightarrow> regex option" where
  "compileAnchored body = parseTerms body Fresh []"

definition atomMatches :: "atom \<Rightarrow> char \<Rightarrow> bool" where
  "atomMatches a c = (case a of Lit l \<Rightarrow> toUpper l = toUpper c | AnyChar \<Rightarrow> \<not> isLineTerminator c)"

text \<open>
  \<open>regex.test(url)\<close> for an expression anchored at both ends: some way of matching the
  terms uses up the whole text. Greedy and lazy quantifiers accept the same texts.
\<close>

fun matchTerms :: "regex \<Rightarrow> string \<Rightarrow> bool" where
  "matchTerms [] s = (s = [])"
| "matchTerms ((a, Once) # r) s =
     (case s of [] \<Rightarrow> False | c # cs \<Rightarrow> atomMatches a c \<and> matchTerms r cs)"
| "matchTerms ((a, Opt) # r) s =
     (matchTerms r s \<or> (case s of [] \<Rightarrow> False | c # cs \<Rightarrow> atomMatches a c \<and> matchTerms r cs))"
| "matchTerms ((a, Star) # r) s =
     (matchTerms r s
      \<or> (case s of [] \<Rightarrow> False | c # cs \<Rightarrow> atomMatches a c \<and> matchTerms ((a, Star) # r) cs))"

definition matchesPattern :: "string \<Rightarrow> string \<Rightarrow> bool" where
  "matchesPattern url pattern =
     (case compileAnchored (regexPattern pattern) of
        Some re \<Rightarrow> matchTerms re url
      | None \<Rightarrow> includesStr url (removeStars pattern))"

text \<open>
  The glob of the specification: \<open>*\<close> stands for any run of characters, every other
  pattern character for itself, letters compared without case, the whole text matched.
\<close>

fun globMatch :: "string \<Rightarrow> string \<Rightarrow> bool" where
  "globMatch [] s = (s = [])"
| "globMatch (p # ps) s =
     (if p = CHR ''*''
      then globMatch ps s \<or> (case s of [] \<Rightarrow> False | c # cs \<Rightarrow> globMatch (p # ps) cs)
      else (case s of [] \<Rightarrow> False | c # cs \<Rightarrow> toUpper p = toUpper c \<and> globMatch ps cs))"

section \<open>Pagination cursors (utils.ts, encodeCursor and decodeCursor)\<close>

subsection \<open>Base64url\<close>

text \<open>
  \<open>buf.toString("base64url")\<close>: three bytes give four characters of the URL-safe
  alphabet; one or two bytes left over give two or three characters; no padding.
\<close>

definition b64Char :: "nat \<Rightarrow> char" where
  "b64Char n = (if n < 26 then char_of (65 + n)
                else if n < 52 then char_of (71 + n)
                else if n < 62 then char_of (n - 4)
                else if n = 62 then CHR ''-'' else CHR ''_'')"

fun base64urlEncode :: "string \<Rightarrow> string" where
  "base64urlEncode [] = []"
| "base64urlEncode [a] =
     [b64Char (of_char a div 4), b64Char ((of_char a mod 4) * 16)]"
| "base64urlEncode [a, b] =
     [b64Char (of_char a div 4), b64Char ((of_char a mod 4) * 16 + of_char b div 16),
      b64Char ((of_char b mod 16) * 4)]"
| "base64urlEncode (a # b # c # r) =
     b64Char (of_char a div 4) # b64Char ((of_char a mod 4) * 16 + of_char b div 16) #
     b64Char ((of_char b mod 16) * 4 + of_char c div 64) # b64Char (of_char c mod 64) #
     base64urlEncode r"

text \<open>
  \<open>Buffer.from(cursor, "base64url")\<close> is lenient: it accepts both alphabets, skips every
  character outside them, stops at the first \<open>=\<close>, and drops a single character left
  over at the end.
\<close>

definition unbase64 :: "char \<Rightarrow> nat option" where
  "unbase64 c =
     (let n = (of_char c :: nat) in
      if 65 \<le> n \<and> n \<le> 90 then Some (n - 65)
      else if 97 \<le> n \<and> n \<le> 122 then Some (n - 71)
      else if 48 \<le> n \<and> n \<le> 57 then Some (n + 4)
      else if c = CHR ''-'' \<or> c = CHR ''+'' then Some 62
      else if c = CHR ''_'' \<or> c = CHR ''/'' then Some 63
      else None)"

definition sextets :: "string \<Rightarrow> nat list" where
  "sextets s = List.map_filter unbase64 (takeWhile (\<lambda>c. c \<noteq> CHR ''='') s)"

fun sextetsToBytes :: "nat list \<Rightarrow> string" where
  "sextetsToBytes (a # b # c # d # r) =
     char_of (a * 4 + b div 16) # char_of ((b mod 16) * 16 + c div 4) #
     char_of ((c mod 4) * 64 + d) # sextetsToBytes r"
| "sextetsToBytes [a, b, c] = [char_of (a * 4 + b div 16), char_of ((b mod 16) * 16 + c div 4)]"
| "sextetsToBytes [a, b] = [char_of (a * 4 + b div 16)]"
| "sextetsToBytes [a] = []"
| "sextetsToBytes [] = []"

definition base64urlDecode :: "string \<Rightarrow> string" where
  "base64urlDecode s = sextetsToBytes (sextets s)"

subsection \<open>UTF-8\<close>

text \<open>
  \<open>Buffer.from(text)\<close> encodes a string in UTF-8: on the byte representation it is the
  identity. \<open>buf.toString("utf-8")\<close> decodes: a well-formed sequence stands for its
  character, and every maximal ill-formed part becomes U+FFFD (bytes EF BF BD).
\<close>

definition replacementChar :: "string" where
  "replacementChar = [CHR 0xEF, CHR 0xBF, CHR 0xBD]"

definition isCont :: "char \<Rightarrow> bool" where
  "isCont b = (128 \<le> (of_char b :: nat) \<and> (of_char b :: nat) \<le> 191)"

text \<open>The second byte allowed after the lead byte of a three- or four-byte sequence.\<close>

definition isSecond :: "char \<Rightarrow> char \<Rightarrow> bool" where
  "isSecond a b =
     (let m = (of_char a :: nat); n = (of_char b :: nat) in
      if m = 224 then 160 \<le> n \<and> n \<le> 191
      else if m = 237 then 128 \<le> n \<and> n \<le> 159
      else if m = 240 then 144 \<le> n \<and> n \<le> 191
      else if m = 244 then 128 \<le> n \<and> n \<le> 143
      else 128 \<le> n \<and> n \<le> 191)"

fun utf8Decode :: "string \<Rightarrow> string" where
  "utf8Decode [] = []"
| "utf8Decode (a # r) =
     (let m = (of_char a :: nat) in
      if m < 128 then a # utf8Decode r
      else if 194 \<le> m \<and> m \<le> 223 then
        (case r of
           [] \<Rightarrow> replacementChar
         | b # r1 \<Rightarrow> if isCont b then a # b # utf8Decode r1 else replacementChar @ utf8Decode r)
      else if 224 \<le> m \<and> m \<le> 239 then
        (case r of
           [] \<Rightarrow> replacementChar
         | b # r1 \<Rightarrow>
             if isSecond a b then
               (case r1 of
                  [] \<Rightarrow> replacementChar
                | c # r2 \<Rightarrow>
                    if isCont c then a # b # c # utf8Decode r2
                    else replacementChar @ utf8Decode r1)
             else replacementChar @ utf8Decode r)
      else if 240 \<le> m \<and> m \<le> 244 then
        (case r of
           [] \<Rightarrow> replacementChar
         | b # r1 \<Rightarrow>
             if isSecond a b then
               (case r1 of
                  [] \<Rightarrow> replacementChar
                | c # r2 \<Rightarrow>
                    if isCont c then
                      (case r2 of
                         [] \<Rightarrow> replacementChar
                       | d # r3 \<Rightarrow>
                           if isCont d then a # b # c # d # utf8Decode r3
                           else replacementChar @ utf8Decode r2)
                    else replacementChar @ utf8Decode r1)
             else replacementChar @ utf8Decode r)
      else replacementChar @ utf8Decode r)"

text \<open>A string is text when decoding leaves it as it is: it is well-formed UTF-8.\<close>

definition wellFormed :: "string \<Rightarrow> bool" where
  "wellFormed s = (utf8Decode s = s)"

text \<open>The UTF-8 bytes of one code point (below 0x110000).\<close>

definition utf8Encode1 :: "nat \<Rightarrow> string" where
  "utf8Encode1 n =
     (if n < 128 then [char_of n]
      else if n < 2048 then [char_of (192 + n div 64), char_of (128 + n mod 64)]
      else if n < 65536 then
        [char_of (224 + n div 4096), char_of (128 + (n div 64) mod 64), char_of (128 + n mod 64)]
      else [char_of (240 + n div 262144), char_of (128 + (n div 4096) mod 64),
            char_of (128 + (n div 64) mod 64), char_of (128 + n mod 64)])"

subsection \<open>JSON\<close>

datatype json =
    JNull | JBool bool | JNum rat | JStr string | JArr "json list" | JObj "(string \<times> json) list"

text \<open>
  The cursor payload \<open>{ offset: number; sitemap_url?: string }\<close>. The offset is an
  integer, printed in decimal digits.
\<close>

record CursorData =
  offset :: int
  sitemap_url :: "string option"

definition digitChar :: "nat \<Rightarrow> char" where
  "digitChar n = char_of (48 + n)"

fun natToString :: "nat \<Rightarrow> string" where
  "natToString n = (if n < 10 then [digitChar n] else natToString (n div 10) @ [digitChar (n mod 10)])"

declare natToString.simps [simp del]

definition numberToString :: "int \<Rightarrow> string" where
  "numberToString i = (if i < 0 then CHR ''-'' # natToString (nat (- i)) else natToString (nat i))"

definition hexChar :: "nat \<Rightarrow> char" where
  "hexChar n = (if n < 10 then char_of (48 + n) else char_of (87 + n))"

text \<open>
  \<open>QuoteJSONString\<close>: the quote, the backslash and the control characters below 0x20 are
  escaped, everything else is copied.
\<close>

definition quoteChar :: "char \<Rightarrow> string" where
  "quoteChar c =
     (if c = CHR 0x22 then [CHR 0x5C, CHR 0x22]
      else if c = CHR 0x5C then [CHR 0x5C, CHR 0x5C]
      else if c = CHR 0x08 then [CHR 0x5C, CHR ''b'']
      else if c = CHR 0x0C then [CHR 0x5C, CHR ''f'']
      else if c = CHR 0x0A then [CHR 0x5C, CHR ''n'']
      else if c = CHR 0x0D then [CHR 0x5C, CHR ''r'']
      else if c = CHR 0x09 then [CHR 0x5C, CHR ''t'']
      else if (of_char c :: nat) < 32 then
        [CHR 0x5C, CHR ''u'', CHR ''0'', CHR ''0'', hexChar (of_char c div 16), hexChar (of_char c mod 16)]
      else [c])"

definition quoteJSONString :: "string \<Rightarrow> string" where
  "quoteJSONString s = CHR 0x22 # concat (map quoteChar s) @ [CHR 0x22]"

text \<open>\<open>JSON.stringify(data)\<close> for a cursor payload; an absent \<open>sitemap_url\<close> is left out.\<close>

definition stringifyCursor :: "CursorData \<Rightarrow> string" where
  "stringifyCursor d =
     CHR ''{'' # quoteJSONString ''offset'' @ CHR '':'' # numberToString (offset d) @
     (case sitemap_url d of
        None \<Rightarrow> []
      | Some u \<Rightarrow> CHR '','' # quoteJSONString ''sitemap_url'' @ CHR '':'' # quoteJSONString u) @
     [CHR ''}'']"

definition encodeCursor :: "CursorData \<Rightarrow> string" where
  "encodeCursor d = base64urlEncode (stringifyCursor d)"

text \<open>\<open>JSON.parse\<close>. White space is space, tab, line feed and carriage return.\<close>

definition isJsonWs :: "char \<Rightarrow> bool" where
  "isJsonWs c = (c = CHR '' '' \<or> c = CHR 0x09 \<or> c = CHR 0x0A \<or> c = CHR 0x0D)"

definition skipWs :: "string \<Rightarrow> string" where
  "skipWs s = dropWhile isJsonWs s"

definition isDigit :: "char \<Rightarrow> bool" where
  "isDigit c = (48 \<le> (of_char c :: nat) \<and> (of_char c :: nat) \<le> 57)"

definition digitsToNat :: "string \<Rightarrow> nat" where
  "digitsToNat ds = foldl (\<lambda>acc c. acc * 10 + (of_char c - 48)) 0 ds"

definition hexVal :: "char \<Rightarrow> nat option" where
  "hexVal c =
     (let n = (of_char c :: nat) in
      if 48 \<le> n \<and> n \<le> 57 then Some (n - 48)
      else if 97 \<le> n \<and> n \<le> 102 then Some (n - 87)
      else if 65 \<le> n \<and> n \<le> 70 then Some (n - 55)
      else None)"

definition hex4 :: "char \<Rightarrow> char \<Rightarrow> char \<Rightarrow> char \<Rightarrow> nat option" where
  "hex4 a b c d =
     (case (hexVal a, hexVal b, hexVal c, hexVal d) of
        (Some w, Some x, Some y, Some z) \<Rightarrow> Some (((w * 16 + x) * 16 + y) * 16 + z)
      | _ \<Rightarrow> None)"

text \<open>
  The number grammar: an optional minus, \<open>0\<close> or a digit sequence without leading zero, an
  optional fraction, an optional exponent. The value is the exact decimal (the rounding
  to a double is not modelled).
\<close>

definition parseExponent :: "string \<Rightarrow> (int \<times> string) option" where
  "parseExponent s =
     (case s of
        [] \<Rightarrow> Some (0, s)
      | e # r \<Rightarrow>
          if e = CHR ''e'' \<or> e = CHR ''E'' then
            (let neg = (case r of [] \<Rightarrow> False | g # _ \<Rightarrow> g = CHR ''-'');
                 r1 = (case r of [] \<Rightarrow> [] | g # r' \<Rightarrow> if g = CHR ''-'' \<or> g = CHR ''+'' then r' else r);
                 ds = takeWhile isDigit r1
             in if ds = [] then None
                else Some (if neg then - int (digitsToNat ds) else int (digitsToNat ds),
                           dropWhile isDigit r1))
          else Some (0, s))"

definition parseFraction :: "string \<Rightarrow> ((nat \<times> nat) \<times> string) option" where
  "parseFraction s =
     (case s of
        [] \<Rightarrow> Some ((0, 0), s)
      | p # r \<Rightarrow>
          if p = CHR ''.'' then
            (let ds = takeWhile isDigit r
             in if ds = [] then None else Some ((digitsToNat ds, length ds), dropWhile isDigit r))
          else Some ((0, 0), s))"

definition scale10 :: "rat \<Rightarrow> int \<Rightarrow> rat" where
  "scale10 x e = (if e < 0 then x / 10 ^ nat (- e) else x * 10 ^ nat e)"

definition parseNumber :: "string \<Rightarrow> (rat \<times> string) option" where
  "parseNumber s =
     (let neg = (case s of [] \<Rightarrow> False | g # _ \<Rightarrow> g = CHR ''-'');
          s1 = (if neg then tl s else s);
          ds = (case s1 of [] \<Rightarrow> [] | z # _ \<Rightarrow> if z = CHR ''0'' then [z] else takeWhile isDigit s1)
      in if ds = [] then None
         else
           (case parseFraction (drop (length ds) s1) of
              None \<Rightarrow> None
            | Some ((f, k), s2) \<Rightarrow>
                (case parseExponent s2 of
                   None \<Rightarrow> None
                 | Some (e, s3) \<Rightarrow>
                     (let v = scale10 (of_nat (digitsToNat ds) + of_nat f / 10 ^ k) e
                      in Some (if neg then - v else v, s3)))))"

text \<open>
  A string after its opening quote. An escape \<open>\uXXXX\<close> gives the UTF-8 bytes of its code
  point; a high surrogate directly followed by an escaped low surrogate is one code point;
  a surrogate on its own, which UTF-8 cannot hold, is written as U+FFFD.
\<close>

definition simpleEscape :: "char \<Rightarrow> char option" where
  "simpleEscape e =
     (if e = CHR 0x22 \<or> e = CHR 0x5C \<or> e = CHR ''/'' then Some e
      else if e = CHR ''b'' then Some (CHR 0x08)
      else if e = CHR ''f'' then Some (CHR 0x0C)
      else if e = CHR ''n'' then Some (CHR 0x0A)
      else if e = CHR ''r'' then Some (CHR 0x0D)
      else if e = CHR ''t'' then Some (CHR 0x09)
      else None)"

definition lowSurrogateEscape :: "string \<Rightarrow> (nat \<times> string) option" where
  "lowSurrogateEscape s =
     (case s of
        b # u # w # x # y # z # r \<Rightarrow>
          if b = CHR 0x5C \<and> u = CHR ''u'' then
            (case hex4 w x y z of
               None \<Rightarrow> None
             | Some n \<Rightarrow> if 56320 \<le> n \<and> n \<le> 57343 then Some (n, r) else None)
          else None
      | _ \<Rightarrow> None)"

fun parseChars :: "string \<Rightarrow> (string \<times> string) option" where
  "parseChars [] = None"
| "parseChars (c # cs) =
     (if c = CHR 0x22 then Some ([], cs)
      else if (of_char c :: nat) < 32 then None
      else if c = CHR 0x5C then
        (case cs of
           [] \<Rightarrow> None
         | e # es \<Rightarrow>
             if e = CHR ''u'' then
               (case es of
                  w # x # y # z # r \<Rightarrow>
                    (case hex4 w x y z of
                       None \<Rightarrow> None
                     | Some n \<Rightarrow>
                         if 55296 \<le> n \<and> n \<le> 56319 then
                           (case lowSurrogateEscape r of
                              Some (l, r') \<Rightarrow>
                                (case r of
                                   _ # _ # _ # _ # _ # _ # r6 \<Rightarrow>
                                     (case parseChars r6 of
                                        None \<Rightarrow> None
                                      | Some (t, rest) \<Rightarrow>
                                          Some (utf8Encode1 (65536 + (n - 55296) * 1024 + (l - 56320)) @ t,
                                                rest))
                                 | _ \<Rightarrow> None)
                            | None \<Rightarrow>
                                (case parseChars r of
                                   None \<Rightarrow> None
                                 | Some (t, rest) \<Rightarrow> Some (replacementChar @ t, rest)))
                         else if 56320 \<le> n \<and> n \<le> 57343 then
                           (case parseChars r of
                              None \<Rightarrow> None
                            | Some (t, rest) \<Rightarrow> Some (replacementChar @ t, rest))
                         else
                           (case parseChars r of
                              None \<Rightarrow> None
                            | Some (t, rest) \<Rightarrow> Some (utf8Encode1 n @ t, rest)))
                | _ \<Rightarrow> None)
             else
               (case simpleEscape e of
                  None \<Rightarrow> None
                | Some ch \<Rightarrow>
                    (case parseChars es of None \<Rightarrow> None | Some (t, rest) \<Rightarrow> Some (ch # t, rest))))
      else (case parseChars cs of None \<Rightarrow> None | Some (t, rest) \<Rightarrow> Some (c # t, rest)))"

text \<open>A later member with the same key replaces the value of the earlier one.\<close>

fun putMember :: "string \<Rightarrow> json \<Rightarrow> (string \<times> json) list \<Rightarrow> (string \<times> json) list" where
  "putMember k v [] = [(k, v)]"
| "putMember k v ((k', v') # ms) = (if k' = k then (k, v) # ms else (k', v') # putMember k v ms)"

text \<open>
  Values, array elements and object members. The first argument bounds the number of
  calls: two for each character of the text are enough, since of any two calls in a row
  one reads a character.
\<close>

fun parseValue :: "nat \<Rightarrow> string \<Rightarrow> (json \<times> string) option"
  and parseElements :: "nat \<Rightarrow> json list \<Rightarrow> string \<Rightarrow> (json \<times> string) option"
  and parseMembers :: "nat \<Rightarrow> (string \<times> json) list \<Rightarrow> string \<Rightarrow> (json \<times> string) option"
where
  "parseValue 0 s = None"
| "parseValue (Suc n) s =
     (case skipWs s of
        [] \<Rightarrow> None
      | c # cs \<Rightarrow>
          if c = CHR ''{'' then
            (case skipWs cs of
               [] \<Rightarrow> None
             | d # ds \<Rightarrow> if d = CHR ''}'' then Some (JObj [], ds) else parseMembers n [] (d # ds))
          else if c = CHR ''['' then
            (case skipWs cs of
               [] \<Rightarrow> None
             | d # ds \<Rightarrow> if d = CHR '']'' then Some (JArr [], ds) else parseElements n [] (d # ds))
          else if c = CHR 0x22 then
            (case parseChars cs of None \<Rightarrow> None | Some (t, rest) \<Rightarrow> Some (JStr t, rest))
          else if startsWith (c # cs) ''true'' then Some (JBool True, drop 4 (c # cs))
          else if startsWith (c # cs) ''false'' then Some (JBool False, drop 5 (c # cs))
          else if startsWith (c # cs) ''null'' then Some (JNull, drop 4 (c # cs))
          else (case parseNumber (c # cs) of None \<Rightarrow> None | Some (x, rest) \<Rightarrow> Some (JNum x, rest)))"
| "parseElements 0 acc s = None"
| "parseElements (Suc n) acc s =
     (case parseValue n s of
        None \<Rightarrow> None
      | Some (v, rest) \<Rightarrow>
          (case skipWs rest of
             [] \<Rightarrow> None
           | c # cs \<Rightarrow>
               if c = CHR '','' then parseElements n (acc @ [v]) cs
               else if c = CHR '']'' then Some (JArr (acc @ [v]), cs)
               else None))"
| "parseMembers 0 acc s = None"
| "parseMembers (Suc n) acc s =
     (case skipWs s of
        [] \<Rightarrow> None
      | q # qs \<Rightarrow>
          if q = CHR 0x22 then
            (case parseChars qs of
               None \<Rightarrow> None
             | Some (k, rest) \<Rightarrow>
                 (case skipWs rest of
                    [] \<Rightarrow> None
                  | c # cs \<Rightarrow>
                      if c = CHR '':'' then
                        (case parseValue n cs of
                           None \<Rightarrow> None
                         | Some (v, rest') \<Rightarrow>
                             (case skipWs rest' of
                                [] \<Rightarrow> None
                              | e # es \<Rightarrow>
                                  if e = CHR '','' then parseMembers n (putMember k v acc) es
                                  else if e = CHR ''}'' then Some (JObj (putMember k v acc), es)
                                  else None))
                      else None))
          else None)"

text \<open>\<open>JSON.parse(text)\<close>: one value, white space around it allowed; \<open>None\<close> is the SyntaxError.\<close>

definition JSON_parse :: "string \<Rightarrow> json option" where
  "JSON_parse text =
     (case parseValue (2 * length text + 2) text of
        None \<Rightarrow> None
      | Some (v, rest) \<Rightarrow> if skipWs rest = [] then Some v else None)"

text \<open>
  \<open>decodeCursor\<close> returns what \<open>JSON.parse\<close> returns, whatever its shape, and \<open>null\<close>
  when anything throws. \<open>None\<close> is JavaScript's \<open>null\<close>, which is also what the text
  \<open>null\<close> parses to.
\<close>

definition decodeCursor :: "string \<Rightarrow> json option" where
  "decodeCursor cursor =
     (case JSON_parse (utf8Decode (base64urlDecode cursor)) of
        None \<Rightarrow> None
      | Some JNull \<Rightarrow> None
      | Some v \<Rightarrow> Some v)"

text \<open>The JSON value of a payload.\<close>

definition cursorJson :: "CursorData \<Rightarrow> json" where
  "cursorJson d =
     JObj ((''offset'', JNum (of_int (offset d))) #
           (case sitemap_url d of None \<Rightarrow> [] | Some u \<Rightarrow> [(''sitemap_url'', JStr u)]))"

section \<open>Response envelopes (types.ts)\<close>

datatype ErrorCode =
    INVALID_INPUT | UPSTREAM_ERROR | RATE_LIMITED | TIMEOUT | PARSE_ERROR | INTERNAL_ERROR

text \<open>
  The metadata of a success envelope. \<open>retrieved_at\<close>, the time of the call, is left out.
  \<open>pagination\<close> is absent or holds \<open>next_cursor\<close>, a string or \<open>null\<close> (\<open>None\<close>).
\<close>

record ResponseMeta =
  source :: "string option"
  pagination :: "string option option"
  warnings :: "string list option"

datatype 'a Response = Success 'a ResponseMeta | Failure ErrorCode string

text \<open>
  \<open>createSuccessResponse(data, meta)\<close> spreads \<open>meta\<close> over \<open>{ warnings: [] }\<close>: a
  \<open>warnings\<close> key that is present wins, also when its value is \<open>undefined\<close>
  (\<open>Some None\<close>); an absent key (\<open>None\<close>) leaves the empty list.
\<close>

definition createSuccessResponse ::
  "'a \<Rightarrow> string option \<Rightarrow> string option option \<Rightarrow> string list option option \<Rightarrow> 'a Response" where
  "createSuccessResponse d src pag warn =
     Success d \<lparr>source = src, pagination = pag,
                warnings = (case warn of None \<Rightarrow> Some [] | Some w \<Rightarrow> w)\<rparr>"

definition createErrorResponse :: "ErrorCode \<Rightarrow> string \<Rightarrow> 'a Response" where
  "createErrorResponse c m = Failure c m"

section \<open>The outside world\<close>

text \<open>
  What a \<open>throw\<close> carries: an \<open>Error\<close> with its name and message, or some other value.
  The abort of \<open>fetchWithTimeout\<close> at its deadline is an \<open>Error\<close> named \<open>AbortError\<close>.
\<close>

datatype thrown = ErrorObj string string | NotAnError

definition abortError :: thrown where
  "abortError = ErrorObj ''AbortError'' ''This operation was aborted''"

text \<open>
  An HTTP response: the status, the \<open>content-type\<close> header, and what reading the body
  gives, as text (\<open>response.text()\<close>) and through \<open>decompressGzip\<close>; either may throw.
\<close>

record HttpResponse =
  status :: nat
  statusText :: string
  contentType :: "string option"
  textBody :: "thrown + string"
  gunzipBody :: "thrown + string"

definition ok :: "HttpResponse \<Rightarrow> bool" where
  "ok r = (200 \<le> status r \<and> status r \<le> 299)"

text \<open>
  What the XML parser hands to the code: under \<open>sitemapindex.sitemap\<close> and \<open>urlset.url\<close>
  a single child comes as a scalar and several as an array; each child has the optional
  text fields the code reads.
\<close>

record RawEntry =
  raw_loc :: "string option"
  raw_lastmod :: "string option"
  raw_changefreq :: "string option"
  raw_priority :: "string option"

datatype 'a children = Single 'a | Several "'a list"

record XmlDoc =
  sitemapindex_sitemap :: "RawEntry children option"
  urlset_url :: "RawEntry children option"

record Url =
  protocol :: string
  origin :: string

text \<open>
  The collaborators of one call: the network (what fetching a URL gives, a throw included),
  the XML parser and the URL parser (\<open>new URL\<close>, \<open>None\<close> when it throws).
\<close>

record Env =
  fetchUrl :: "string \<Rightarrow> thrown + HttpResponse"
  xmlParse :: "string \<Rightarrow> thrown + XmlDoc"
  parseUrl :: "string \<Rightarrow> Url option"

text \<open>
  The state of one call: the \<open>visited\<close> set of the traversal, and the list of the fetches
  made so far, each with the function that made it.
\<close>

datatype fetcher = ByCheckSitemap | ByRobotsTxt | ByIndexExpansion | ByFetchSitemap

record State =
  visited :: "string set"
  fetched :: "(fetcher \<times> string) list"

definition fetchWithTimeout ::
  "Env \<Rightarrow> fetcher \<Rightarrow> string \<Rightarrow> State \<Rightarrow> (thrown + HttpResponse) \<times> State" where
  "fetchWithTimeout E who url s = (fetchUrl E url, s\<lparr>fetched := fetched s @ [(who, url)]\<rparr>)"

definition isValidUrl :: "Env \<Rightarrow> string \<Rightarrow> bool" where
  "isValidUrl E url =
     (case parseUrl E url of
        None \<Rightarrow> False
      | Some u \<Rightarrow> protocol u = ''http:'' \<or> protocol u = ''https:'')"

text \<open>\<open>/^https?:\/\//i\<close>\<close>

definition hasHttpPrefix :: "string \<Rightarrow> bool" where
  "hasHttpPrefix s =
     (startsWith (map toUpper s) ''HTTP://'' \<or> startsWith (map toUpper s) ''HTTPS://'')"

definition normalizeUrl :: "Env \<Rightarrow> string \<Rightarrow> string option" where
  "normalizeUrl E url =
     (let t = trim url;
          n = (if hasHttpPrefix t then t else ''https://'' @ t)
      in if isValidUrl E n then Some n else None)"

text \<open>The body as text: inflated when the URL ends in \<open>.gz\<close> or the content type names gzip.\<close>

definition readBody :: "string \<Rightarrow> HttpResponse \<Rightarrow> thrown + string" where
  "readBody url r =
     (if endsWith url ''.gz'' \<or> includesStr (case contentType r of None \<Rightarrow> [] | Some c \<Rightarrow> c) ''gzip''
      then gunzipBody r else textBody r)"

section \<open>Enumerating one sitemap (list.ts)\<close>

record SitemapEntry =
  loc :: string
  lastmod :: "string option"
  changefreq :: "string option"
  priority :: "string option"

record ParsedSitemap =
  urls :: "SitemapEntry list"
  isIndex :: bool
  indexUrls :: "string list"

definition childList :: "'a children \<Rightarrow> 'a list" where
  "childList c = (case c of Single x \<Rightarrow> [x] | Several xs \<Rightarrow> xs)"

text \<open>\<open>if (entry.loc)\<close>: the field is there and not the empty string.\<close>

definition hasLoc :: "RawEntry \<Rightarrow> bool" where
  "hasLoc e = (case raw_loc e of None \<Rightarrow> False | Some l \<Rightarrow> l \<noteq> [])"

definition parseSitemapContent :: "XmlDoc \<Rightarrow> ParsedSitemap" where
  "parseSitemapContent parsed =
     (case sitemapindex_sitemap parsed of
        Some c \<Rightarrow>
          (let es = filter hasLoc (childList c) in
           \<lparr>urls = map (\<lambda>e. \<lparr>loc = the (raw_loc e), lastmod = raw_lastmod e,
                                changefreq = None, priority = None\<rparr>) es,
            isIndex = True,
            indexUrls = map (\<lambda>e. the (raw_loc e)) es\<rparr>)
      | None \<Rightarrow>
          (case urlset_url parsed of
             Some c \<Rightarrow>
               \<lparr>urls = map (\<lambda>e. \<lparr>loc = the (raw_loc e), lastmod = raw_lastmod e,
                                    changefreq = raw_changefreq e, priority = raw_priority e\<rparr>)
                             (filter hasLoc (childList c)),
                isIndex = False, indexUrls = []\<rparr>
           | None \<Rightarrow> \<lparr>urls = [], isIndex = False, indexUrls = []\<rparr>))"

definition fetchSitemap ::
  "Env \<Rightarrow> string \<Rightarrow> State \<Rightarrow> (thrown + ParsedSitemap) \<times> State" where
  "fetchSitemap E url s =
     (case fetchWithTimeout E ByFetchSitemap url s of
        (Inl t, s1) \<Rightarrow> (Inl t, s1)
      | (Inr r, s1) \<Rightarrow>
          if \<not> ok r then
            (Inl (ErrorObj ''Error'' (''HTTP '' @ natToString (status r) @ '': '' @ statusText r)), s1)
          else
            (case readBody url r of
               Inl t \<Rightarrow> (Inl t, s1)
             | Inr content \<Rightarrow>
                 (case xmlParse E content of
                    Inl t \<Rightarrow> (Inl t, s1)
                  | Inr parsed \<Rightarrow> (Inr (parseSitemapContent parsed), s1))))"

record ListSitemapUrlsData =
  lsu_sitemap_url :: string
  lsu_urls :: "SitemapEntry list"
  total_in_page :: nat
  is_index :: bool

text \<open>\<open>Math.min(Math.max(1, limit ?? DEFAULT_LIMIT), MAX_LIMIT)\<close>\<close>

definition pageLimit :: "int option \<Rightarrow> int" where
  "pageLimit limit = min (max 1 (case limit of None \<Rightarrow> 100 | Some l \<Rightarrow> l)) 1000"

text \<open>
  \<open>Array.prototype.slice(start, end)\<close> for integer arguments: a negative index counts
  from the end, and both are clamped to the array.
\<close>

definition relIndex :: "int \<Rightarrow> nat \<Rightarrow> nat" where
  "relIndex i n = (if i < 0 then nat (max (int n + i) 0) else min (nat i) n)"

definition slice :: "'a list \<Rightarrow> int \<Rightarrow> int \<Rightarrow> 'a list" where
  "slice xs start fin = take (relIndex fin (length xs) - relIndex start (length xs))
                             (drop (relIndex start (length xs)) xs)"

text \<open>\<open>if (!cursorData)\<close>: zero, the empty string and \<open>false\<close> are falsy as \<open>null\<close> is.\<close>

definition falsy :: "json \<Rightarrow> bool" where
  "falsy v = (v = JNull \<or> v = JNum 0 \<or> v = JStr [] \<or> v = JBool False)"

text \<open>
  \<open>cursorData.offset\<close> as the code uses it, in a sum and as an array index. A missing
  property is \<open>undefined\<close>; \<open>null\<close> and the booleans count as 0 and 1; an integer is
  itself. A fraction, a string, an array or an object as offset goes through JavaScript's
  number printing and string concatenation, which are not modelled.
\<close>

datatype offsetValue = OffsetInt int | OffsetUndefined | OffsetNotModelled

definition offsetOf :: "json \<Rightarrow> offsetValue" where
  "offsetOf v =
     (case v of
        JObj ms \<Rightarrow>
          (case map_of ms ''offset'' of
             None \<Rightarrow> OffsetUndefined
           | Some JNull \<Rightarrow> OffsetInt 0
           | Some (JBool b) \<Rightarrow> OffsetInt (if b then 1 else 0)
           | Some (JNum x) \<Rightarrow> if x = of_int \<lfloor>x\<rfloor> then OffsetInt \<lfloor>x\<rfloor> else OffsetNotModelled
           | Some _ \<Rightarrow> OffsetNotModelled)
      | _ \<Rightarrow> OffsetUndefined)"

text \<open>The \<open>catch\<close> of \<open>listSitemapUrls\<close>.\<close>

definition listError :: "string \<Rightarrow> thrown \<Rightarrow> 'a Response" where
  "listError sitemapUrl t =
     (case t of
        ErrorObj name msg \<Rightarrow>
          if name = ''AbortError'' \<or> includesStr msg ''timeout'' then
            createErrorResponse TIMEOUT (''Request timed out while fetching sitemap: '' @ sitemapUrl)
          else if includesStr msg ''HTTP'' then createErrorResponse UPSTREAM_ERROR msg
          else if includesStr msg ''parse'' \<or> includesStr msg ''XML'' \<or> includesStr msg ''Unexpected''
          then createErrorResponse PARSE_ERROR (''Failed to parse sitemap XML: '' @ msg)
          else createErrorResponse UPSTREAM_ERROR msg
      | NotAnError \<Rightarrow>
          createErrorResponse INTERNAL_ERROR ''An unexpected error occurred while listing sitemap URLs'')"

text \<open>
  The page for an offset that is an integer, and for one that is \<open>undefined\<close>: then the
  sum is \<open>NaN\<close>, the slice is empty and nothing compares below the length.
\<close>

definition listPage ::
  "string \<Rightarrow> ParsedSitemap \<Rightarrow> int \<Rightarrow> int option \<Rightarrow> ListSitemapUrlsData Response" where
  "listPage sitemapUrl doc pl off =
     (let paginatedUrls = (case off of None \<Rightarrow> [] | Some k \<Rightarrow> slice (urls doc) k (k + pl));
          hasMore = (case off of None \<Rightarrow> False | Some k \<Rightarrow> k + pl < int (length (urls doc)));
          nextCursor = (if hasMore then Some (encodeCursor \<lparr>offset = the off + pl, sitemap_url = None\<rparr>)
                        else None)
      in createSuccessResponse
           \<lparr>lsu_sitemap_url = sitemapUrl, lsu_urls = paginatedUrls,
            total_in_page = length paginatedUrls, is_index = isIndex doc\<rparr>
           (Some sitemapUrl) (Some nextCursor) None)"

text \<open>
  \<open>listSitemapUrls(sitemapUrl, limit, cursor)\<close>. The result is \<open>None\<close> only for a cursor
  whose offset is not modelled.
\<close>

definition listSitemapUrls ::
  "Env \<Rightarrow> string \<Rightarrow> int option \<Rightarrow> string option \<Rightarrow> State
   \<Rightarrow> ListSitemapUrlsData Response option \<times> State" where
  "listSitemapUrls E sitemapUrl limit cursor s =
     (if sitemapUrl = [] then
        (Some (createErrorResponse INVALID_INPUT ''sitemap_url is required and must be a string''), s)
      else if \<not> isValidUrl E sitemapUrl then
        (Some (createErrorResponse INVALID_INPUT
           ''Invalid sitemap URL format. Please provide a valid HTTP or HTTPS URL.''), s)
      else
        (let pl = pageLimit limit;
             cursorData = (case cursor of None \<Rightarrow> None | Some c \<Rightarrow> if c = [] then None else Some (decodeCursor c))
         in case cursorData of
              Some None \<Rightarrow> (Some (createErrorResponse INVALID_INPUT ''Invalid cursor format''), s)
            | _ \<Rightarrow>
              if (case cursorData of Some (Some v) \<Rightarrow> falsy v | _ \<Rightarrow> False) then
                (Some (createErrorResponse INVALID_INPUT ''Invalid cursor format''), s)
              else
                (let off = (case cursorData of Some (Some v) \<Rightarrow> offsetOf v | _ \<Rightarrow> OffsetInt 0) in
                 case fetchSitemap E sitemapUrl s of
                   (Inl t, s1) \<Rightarrow> (Some (listError sitemapUrl t), s1)
                 | (Inr doc, s1) \<Rightarrow>
                     (case off of
                        OffsetInt k \<Rightarrow> (Some (listPage sitemapUrl doc pl (Some k)), s1)
                      | OffsetUndefined \<Rightarrow> (Some (listPage sitemapUrl doc pl None), s1)
                      | OffsetNotModelled \<Rightarrow> (None, s1)))))"

text \<open>The page the specification describes: the entries at the positions from \<open>k\<close> up to
  \<open>k + p\<close>, and a cursor for \<open>k + p\<close> when entries remain beyond it.\<close>

definition expectedPage :: "string \<Rightarrow> ParsedSitemap \<Rightarrow> nat \<Rightarrow> nat \<Rightarrow> ListSitemapUrlsData Response" where
  "expectedPage u doc k p =
     Success
       \<lparr>lsu_sitemap_url = u, lsu_urls = take p (drop k (urls doc)),
        total_in_page = length (take p (drop k (urls doc))), is_index = isIndex doc\<rparr>
       \<lparr>source = Some u,
        pagination = Some (if k + p < length (urls doc)
                           then Some (encodeCursor \<lparr>offset = int (k + p), sitemap_url = None\<rparr>)
                           else None),
        warnings = Some []\<rparr>"

section \<open>Discovering sitemaps (discover.ts)\<close>

datatype sitemapType = sitemap | sitemap_index
datatype discoveredFrom = robots_txt | standard_location | from_sitemap_index

record DiscoveredSitemap =
  ds_url :: string
  ds_type :: sitemapType
  discovered_from :: discoveredFrom

record DiscoverSitemapsData =
  domain :: string
  sitemaps :: "DiscoveredSitemap list"
  robots_txt_found :: bool

text \<open>
  \<open>checkSitemap\<close>: one fetch; anything thrown and any status outside 2xx give \<open>null\<close>;
  otherwise the type is read off the text of the body.
\<close>

definition checkSitemap ::
  "Env \<Rightarrow> string \<Rightarrow> discoveredFrom \<Rightarrow> State \<Rightarrow> DiscoveredSitemap option \<times> State" where
  "checkSitemap E url from s =
     (case fetchWithTimeout E ByCheckSitemap url s of
        (Inl t, s1) \<Rightarrow> (None, s1)
      | (Inr r, s1) \<Rightarrow>
          if \<not> ok r then (None, s1)
          else
            (case readBody url r of
               Inl t \<Rightarrow> (None, s1)
             | Inr content \<Rightarrow>
                 (let isSitemapIndex =
                        (includesStr content ''<sitemapindex'' \<or> includesStr content ''<sitemapindex>'')
                  in (Some \<lparr>ds_url = url,
                            ds_type = (if isSitemapIndex then sitemap_index else sitemap),
                            discovered_from = from\<rparr>, s1))))"

text \<open>\<open>content.split("\n")\<close>\<close>

fun splitLines :: "string \<Rightarrow> string list" where
  "splitLines [] = [[]]"
| "splitLines (c # cs) =
     (if c = CHR 0x0A then [] # splitLines cs
      else (case splitLines cs of [] \<Rightarrow> [[c]] | l # ls \<Rightarrow> (c # l) # ls))"

text \<open>
  \<open>line.match(/^\s*sitemap:\s*(.+)\s*$/i)\<close>, then \<open>match[1].trim()\<close>: after the white
  space and the word, the rest of the line up to its first line terminator, provided only
  white space follows that; a rest that is all white space matches with a blank capture when
  it holds a character that is not a line terminator.
\<close>

definition robotsLine :: "string \<Rightarrow> string option" where
  "robotsLine line =
     (let l1 = dropWhile isWhiteSpace line in
      if \<not> startsWith (map toUpper l1) ''SITEMAP:'' then None
      else
        (let r = drop 8 l1; r0 = dropWhile isWhiteSpace r in
         if r0 = [] then (if list_ex (\<lambda>c. \<not> isLineTerminator c) r then Some [] else None)
         else if list_all isWhiteSpace (dropWhile (\<lambda>c. \<not> isLineTerminator c) r0)
         then Some (trim (takeWhile (\<lambda>c. \<not> isLineTerminator c) r0))
         else None))"

definition parseSitemapsFromRobotsTxt ::
  "Env \<Rightarrow> string \<Rightarrow> State \<Rightarrow> (string list \<times> bool) \<times> State" where
  "parseSitemapsFromRobotsTxt E robotsTxtUrl s =
     (case fetchWithTimeout E ByRobotsTxt robotsTxtUrl s of
        (Inl t, s1) \<Rightarrow> (([], False), s1)
      | (Inr r, s1) \<Rightarrow>
          if \<not> ok r then (([], False), s1)
          else
            (case textBody r of
               Inl t \<Rightarrow> (([], False), s1)
             | Inr content \<Rightarrow>
                 ((filter (isValidUrl E) (List.map_filter robotsLine (splitLines content)), True), s1)))"

text \<open>
  \<open>discoverFromSitemapIndex\<close> and its loop over the entries of the index. The first
  argument bounds the depth of the recursion; \<open>None\<close> means the bound was reached.
\<close>

fun discoverFromSitemapIndex ::
    "nat \<Rightarrow> Env \<Rightarrow> string \<Rightarrow> State \<Rightarrow> (DiscoveredSitemap list \<times> State) option"
  and discoverEntries ::
    "nat \<Rightarrow> Env \<Rightarrow> RawEntry list \<Rightarrow> DiscoveredSitemap list \<Rightarrow> State
     \<Rightarrow> (DiscoveredSitemap list \<times> State) option"
where
  "discoverFromSitemapIndex 0 E indexUrl s = None"
| "discoverFromSitemapIndex (Suc n) E indexUrl s =
     (if indexUrl \<in> visited s then Some ([], s)
      else
        (case fetchWithTimeout E ByIndexExpansion indexUrl (s\<lparr>visited := insert indexUrl (visited s)\<rparr>) of
           (Inl t, s1) \<Rightarrow> Some ([], s1)
         | (Inr r, s1) \<Rightarrow>
             if \<not> ok r then Some ([], s1)
             else
               (case readBody indexUrl r of
                  Inl t \<Rightarrow> Some ([], s1)
                | Inr content \<Rightarrow>
                    (case xmlParse E content of
                       Inl t \<Rightarrow> Some ([], s1)
                     | Inr parsed \<Rightarrow>
                         (case sitemapindex_sitemap parsed of
                            None \<Rightarrow> Some ([], s1)
                          | Some c \<Rightarrow> discoverEntries n E (childList c) [] s1)))))"
| "discoverEntries n E [] acc s = Some (acc, s)"
| "discoverEntries n E (entry # es) acc s =
     (if hasLoc entry \<and> isValidUrl E (the (raw_loc entry)) \<and> the (raw_loc entry) \<notin> visited s then
        (case checkSitemap E (the (raw_loc entry)) from_sitemap_index s of
           (None, s1) \<Rightarrow> discoverEntries n E es acc s1
         | (Some sm, s1) \<Rightarrow>
             if ds_type sm = sitemap_index then
               (case discoverFromSitemapIndex n E (the (raw_loc entry)) s1 of
                  None \<Rightarrow> None
                | Some (nested, s2) \<Rightarrow> discoverEntries n E es (acc @ [sm] @ nested) s2)
             else discoverEntries n E es (acc @ [sm]) s1)
      else discoverEntries n E es acc s)"

text \<open>
  One candidate of \<open>discoverSitemaps\<close>: the probe, then the result and the visited set
  extended, then the expansion when the candidate is an index.
\<close>

definition probeCandidate ::
  "nat \<Rightarrow> Env \<Rightarrow> discoveredFrom \<Rightarrow> string \<Rightarrow> DiscoveredSitemap list \<times> State
   \<Rightarrow> (DiscoveredSitemap list \<times> State) option" where
  "probeCandidate n E from url acc =
     (case checkSitemap E url from (snd acc) of
        (None, s1) \<Rightarrow> Some (fst acc, s1)
      | (Some sm, s1) \<Rightarrow>
          if ds_type sm = sitemap_index then
            (case discoverFromSitemapIndex n E url (s1\<lparr>visited := insert url (visited s1)\<rparr>) of
               None \<Rightarrow> None
             | Some (childSitemaps, s2) \<Rightarrow> Some (fst acc @ [sm] @ childSitemaps, s2))
          else Some (fst acc @ [sm], s1\<lparr>visited := insert url (visited s1)\<rparr>))"

fun probeUnvisited ::
  "nat \<Rightarrow> Env \<Rightarrow> discoveredFrom \<Rightarrow> string list \<Rightarrow> DiscoveredSitemap list \<times> State
   \<Rightarrow> (DiscoveredSitemap list \<times> State) option" where
  "probeUnvisited n E from [] acc = Some acc"
| "probeUnvisited n E from (url # rest) acc =
     (if url \<in> visited (snd acc) then probeUnvisited n E from rest acc
      else (case probeCandidate n E from url acc of
              None \<Rightarrow> None
            | Some acc' \<Rightarrow> probeUnvisited n E from rest acc'))"

definition alternativeLocations :: "string \<Rightarrow> string list" where
  "alternativeLocations dmn =
     [dmn @ ''/sitemap_index.xml'', dmn @ ''/sitemap.xml.gz'', dmn @ ''/sitemaps/sitemap.xml'']"

text \<open>The \<open>catch\<close> of \<open>discoverSitemaps\<close> and of \<open>buildCrawlFrontier\<close>.\<close>

definition topLevelError :: "string \<Rightarrow> string \<Rightarrow> thrown \<Rightarrow> 'a Response" where
  "topLevelError timeoutMsg internalMsg t =
     (case t of
        ErrorObj name msg \<Rightarrow>
          if name = ''AbortError'' \<or> includesStr msg ''timeout'' then createErrorResponse TIMEOUT timeoutMsg
          else createErrorResponse UPSTREAM_ERROR msg
      | NotAnError \<Rightarrow> createErrorResponse INTERNAL_ERROR internalMsg)"

text \<open>
  The three stages of \<open>discoverSitemaps\<close> for a domain, and its success envelope. The
  call starts with an empty visited set.
\<close>

definition discoverStages ::
  "nat \<Rightarrow> Env \<Rightarrow> string \<Rightarrow> string \<Rightarrow> State \<Rightarrow> (DiscoverSitemapsData Response \<times> State) option" where
  "discoverStages n E normalizedUrl dmn s =
     (case probeCandidate n E standard_location (dmn @ ''/sitemap.xml'') ([], s\<lparr>visited := {}\<rparr>) of
        None \<Rightarrow> None
      | Some acc1 \<Rightarrow>
          (case parseSitemapsFromRobotsTxt E (dmn @ ''/robots.txt'') (snd acc1) of
             ((robotsSitemaps, robotsTxtFound), s2) \<Rightarrow>
               (case probeUnvisited n E robots_txt robotsSitemaps (fst acc1, s2) of
                  None \<Rightarrow> None
                | Some acc2 \<Rightarrow>
                    (case probeUnvisited n E standard_location (alternativeLocations dmn) acc2 of
                       None \<Rightarrow> None
                     | Some (found, s3) \<Rightarrow>
                         Some (createSuccessResponse
                                 \<lparr>domain = dmn, sitemaps = found, robots_txt_found = robotsTxtFound\<rparr>
                                 (Some normalizedUrl) None
                                 (Some (Some (if found = [] then [''No sitemaps found for this domain'']
                                              else []))),
                               s3)))))"

text \<open>
  \<open>discoverSitemaps(url)\<close>. \<open>new URL\<close> on the normalized URL is inside the \<open>try\<close>, so
  its throw would be caught there.
\<close>

definition discoverSitemaps ::
  "nat \<Rightarrow> Env \<Rightarrow> string \<Rightarrow> State \<Rightarrow> (DiscoverSitemapsData Response \<times> State) option" where
  "discoverSitemaps n E url s =
     (if url = [] then Some (createErrorResponse INVALID_INPUT ''URL is required and must be a string'', s)
      else
        (case normalizeUrl E url of
           None \<Rightarrow>
             Some (createErrorResponse INVALID_INPUT
                     ''Invalid URL format. Please provide a valid HTTP or HTTPS URL.'', s)
         | Some normalizedUrl \<Rightarrow>
             (case parseUrl E normalizedUrl of
                None \<Rightarrow>
                  Some (topLevelError (''Request timed out while discovering sitemaps for '' @ url)
                          ''An unexpected error occurred while discovering sitemaps''
                          (ErrorObj ''TypeError'' ''Invalid URL''), s)
              | Some urlObj \<Rightarrow> discoverStages n E normalizedUrl (origin urlObj) s)))"

section \<open>Building the crawl frontier (frontier.ts)\<close>

record CrawlFrontierRules =
  include_patterns :: "string list option"
  exclude_patterns :: "string list option"
  max_urls :: "int option"

record FrontierUrl =
  fu_url :: string
  source_sitemap :: string
  last_modified :: "string option"
  fu_priority :: "string option"

record BuildCrawlFrontierData =
  seed_url :: string
  frontier :: "FrontierUrl list"
  total_urls :: nat
  sitemaps_processed :: nat
  rules_applied :: CrawlFrontierRules

definition DEFAULT_LIMIT :: int where "DEFAULT_LIMIT = 1000"
definition MAX_LIMIT :: int where "MAX_LIMIT = 10000"
definition DEFAULT_MAX_URLS :: int where "DEFAULT_MAX_URLS = 5000"

definition passesFilters :: "string \<Rightarrow> CrawlFrontierRules \<Rightarrow> bool" where
  "passesFilters url rules =
     (let inc = (case include_patterns rules of None \<Rightarrow> [] | Some ps \<Rightarrow> ps);
          exc = (case exclude_patterns rules of None \<Rightarrow> [] | Some ps \<Rightarrow> ps)
      in if inc \<noteq> [] \<and> \<not> list_ex (matchesPattern url) inc then False
         else if exc \<noteq> [] \<and> list_ex (matchesPattern url) exc then False
         else True)"

text \<open>The loop over the entries of a regular sitemap.\<close>

fun collectEntries ::
  "string \<Rightarrow> CrawlFrontierRules \<Rightarrow> int \<Rightarrow> SitemapEntry list \<Rightarrow> FrontierUrl list \<Rightarrow> FrontierUrl list" where
  "collectEntries sitemapUrl rules maxUrls [] acc = acc"
| "collectEntries sitemapUrl rules maxUrls (entry # es) acc =
     (if maxUrls \<le> int (length acc) then acc
      else collectEntries sitemapUrl rules maxUrls es
             (if passesFilters (loc entry) rules
              then acc @ [\<lparr>fu_url = loc entry, source_sitemap = sitemapUrl,
                           last_modified = lastmod entry, fu_priority = priority entry\<rparr>]
              else acc))"

text \<open>
  \<open>collectUrlsFromSitemap\<close> and its loop over the children of an index. The first
  argument bounds the depth of the recursion; \<open>None\<close> means the bound was reached. A
  throw of \<open>fetchSitemap\<close> is caught: nothing collected, nothing counted.
\<close>

fun collectUrlsFromSitemap ::
    "nat \<Rightarrow> Env \<Rightarrow> string \<Rightarrow> CrawlFrontierRules \<Rightarrow> int \<Rightarrow> State
     \<Rightarrow> ((FrontierUrl list \<times> nat) \<times> State) option"
  and collectChildren ::
    "nat \<Rightarrow> Env \<Rightarrow> string list \<Rightarrow> CrawlFrontierRules \<Rightarrow> int \<Rightarrow> FrontierUrl list \<Rightarrow> nat \<Rightarrow> State
     \<Rightarrow> ((FrontierUrl list \<times> nat) \<times> State) option"
where
  "collectUrlsFromSitemap 0 E sitemapUrl rules maxUrls s = None"
| "collectUrlsFromSitemap (Suc n) E sitemapUrl rules maxUrls s =
     (if sitemapUrl \<in> visited s then Some (([], 0), s)
      else
        (case fetchSitemap E sitemapUrl (s\<lparr>visited := insert sitemapUrl (visited s)\<rparr>) of
           (Inl t, s1) \<Rightarrow> Some (([], 0), s1)
         | (Inr doc, s1) \<Rightarrow>
             if isIndex doc then collectChildren n E (indexUrls doc) rules maxUrls [] 1 s1
             else Some ((collectEntries sitemapUrl rules maxUrls (urls doc) [], 1), s1)))"
| "collectChildren n E [] rules maxUrls acc processed s = Some ((acc, processed), s)"
| "collectChildren n E (childSitemapUrl # rest) rules maxUrls acc processed s =
     (if maxUrls \<le> int (length acc) then Some ((acc, processed), s)
      else
        (case collectUrlsFromSitemap n E childSitemapUrl rules (maxUrls - int (length acc)) s of
           None \<Rightarrow> None
         | Some ((childUrls, childProcessed), s1) \<Rightarrow>
             collectChildren n E rest rules maxUrls (acc @ childUrls) (processed + childProcessed) s1))"

text \<open>The loop of \<open>buildCrawlFrontier\<close> over the discovered sitemaps; both branches of its
  test on the type make the same call.\<close>

fun collectAll ::
  "nat \<Rightarrow> Env \<Rightarrow> DiscoveredSitemap list \<Rightarrow> CrawlFrontierRules \<Rightarrow> int \<Rightarrow> FrontierUrl list \<Rightarrow> nat
   \<Rightarrow> State \<Rightarrow> ((FrontierUrl list \<times> nat) \<times> State) option" where
  "collectAll n E [] rules budget allUrls tally s = Some ((allUrls, tally), s)"
| "collectAll n E (sm # rest) rules budget allUrls tally s =
     (if budget \<le> int (length allUrls) then Some ((allUrls, tally), s)
      else
        (case (if ds_type sm = sitemap
               then collectUrlsFromSitemap n E (ds_url sm) rules (budget - int (length allUrls)) s
               else collectUrlsFromSitemap n E (ds_url sm) rules (budget - int (length allUrls)) s) of
           None \<Rightarrow> None
         | Some ((found, processed), s1) \<Rightarrow>
             collectAll n E rest rules budget (allUrls @ found) (tally + processed) s1))"

text \<open>The deduplication loop: an entry is kept when its URL has not been seen.\<close>

fun dedupe :: "string set \<Rightarrow> FrontierUrl list \<Rightarrow> FrontierUrl list" where
  "dedupe seenUrls [] = []"
| "dedupe seenUrls (entry # es) =
     (if fu_url entry \<in> seenUrls then dedupe seenUrls es
      else entry # dedupe (insert (fu_url entry) seenUrls) es)"

definition normalizeRules :: "CrawlFrontierRules option \<Rightarrow> CrawlFrontierRules" where
  "normalizeRules rules =
     \<lparr>include_patterns = Some (case rules of None \<Rightarrow> [] | Some r \<Rightarrow> (case include_patterns r of None \<Rightarrow> [] | Some ps \<Rightarrow> ps)),
      exclude_patterns = Some (case rules of None \<Rightarrow> [] | Some r \<Rightarrow> (case exclude_patterns r of None \<Rightarrow> [] | Some ps \<Rightarrow> ps)),
      max_urls = Some (min (case rules of None \<Rightarrow> DEFAULT_MAX_URLS
                            | Some r \<Rightarrow> (case max_urls r of None \<Rightarrow> DEFAULT_MAX_URLS | Some m \<Rightarrow> m))
                           MAX_LIMIT)\<rparr>"

text \<open>\<open>Math.min(limit ?? normalizedRules.max_urls ?? DEFAULT_LIMIT, normalizedRules.max_urls ?? MAX_LIMIT)\<close>\<close>

definition effectiveLimit :: "CrawlFrontierRules \<Rightarrow> int option \<Rightarrow> int" where
  "effectiveLimit normalizedRules limit =
     min (case limit of
            Some l \<Rightarrow> l
          | None \<Rightarrow> (case max_urls normalizedRules of Some m \<Rightarrow> m | None \<Rightarrow> DEFAULT_LIMIT))
         (case max_urls normalizedRules of Some m \<Rightarrow> m | None \<Rightarrow> MAX_LIMIT)"

definition truncationWarning :: "int \<Rightarrow> nat \<Rightarrow> string" where
  "truncationWarning cap available =
     ''Result truncated to '' @ numberToString cap @ '' URLs. Total available: '' @ natToString available"

text \<open>
  The end of \<open>buildCrawlFrontier\<close>: deduplication, the final limit, the warning about a
  truncation, and the success envelope.
\<close>

definition assembleFrontier ::
  "string \<Rightarrow> CrawlFrontierRules \<Rightarrow> int \<Rightarrow> string list \<Rightarrow> FrontierUrl list \<Rightarrow> nat
   \<Rightarrow> BuildCrawlFrontierData Response" where
  "assembleFrontier normalizedSeedUrl normalizedRules cap discoverWarnings allUrls totalSitemapsProcessed =
     (let dedupedUrls = dedupe {} allUrls;
          finalUrls = slice dedupedUrls 0 cap;
          ws = discoverWarnings @
               (if cap < int (length dedupedUrls) then [truncationWarning cap (length dedupedUrls)]
                else [])
      in createSuccessResponse
           \<lparr>seed_url = normalizedSeedUrl, frontier = finalUrls, total_urls = length finalUrls,
            sitemaps_processed = totalSitemapsProcessed, rules_applied = normalizedRules\<rparr>
           (Some normalizedSeedUrl) None (Some (if ws \<noteq> [] then Some ws else None)))"

text \<open>
  The \<open>try\<close> block of \<open>buildCrawlFrontier\<close>: discovery, then the traversal with an empty
  visited set of its own.
\<close>

definition crawlDiscovered ::
  "nat \<Rightarrow> Env \<Rightarrow> string \<Rightarrow> CrawlFrontierRules \<Rightarrow> int \<Rightarrow> State
   \<Rightarrow> (BuildCrawlFrontierData Response \<times> State) option" where
  "crawlDiscovered n E normalizedSeedUrl normalizedRules cap s =
     (case discoverSitemaps n E normalizedSeedUrl s of
        None \<Rightarrow> None
      | Some (Failure c m, s1) \<Rightarrow> Some (Failure c m, s1)
      | Some (Success discovered meta, s1) \<Rightarrow>
          if sitemaps discovered = [] then
            Some (createSuccessResponse
                    \<lparr>seed_url = normalizedSeedUrl, frontier = [], total_urls = 0,
                     sitemaps_processed = 0, rules_applied = normalizedRules\<rparr>
                    (Some normalizedSeedUrl) None
                    (Some (Some [''No sitemaps found for this domain. Frontier is empty.''])),
                  s1)
          else
            (case collectAll n E (sitemaps discovered) normalizedRules cap [] 0 (s1\<lparr>visited := {}\<rparr>) of
               None \<Rightarrow> None
             | Some ((allUrls, totalSitemapsProcessed), s2) \<Rightarrow>
                 Some (assembleFrontier normalizedSeedUrl normalizedRules cap
                         (case warnings meta of None \<Rightarrow> [] | Some w \<Rightarrow> w)
                         allUrls totalSitemapsProcessed,
                       s2)))"

text \<open>\<open>buildCrawlFrontier(seedUrl, rules, limit)\<close>: the validation, then the \<open>try\<close> block.\<close>

definition buildCrawlFrontier ::
  "nat \<Rightarrow> Env \<Rightarrow> string \<Rightarrow> CrawlFrontierRules option \<Rightarrow> int option \<Rightarrow> State
   \<Rightarrow> (BuildCrawlFrontierData Response \<times> State) option" where
  "buildCrawlFrontier n E seedUrl rules limit s =
     (if seedUrl = [] then
        Some (createErrorResponse INVALID_INPUT ''seed_url is required and must be a string'', s)
      else
        (case normalizeUrl E seedUrl of
           None \<Rightarrow>
             Some (createErrorResponse INVALID_INPUT
                     ''Invalid seed URL format. Please provide a valid HTTP or HTTPS URL.'', s)
         | Some normalizedSeedUrl \<Rightarrow>
             (let normalizedRules = normalizeRules rules in
              if [] \<in> set (case include_patterns normalizedRules of None \<Rightarrow> [] | Some ps \<Rightarrow> ps) then
                Some (createErrorResponse INVALID_INPUT ''Include patterns must be non-empty strings'', s)
              else if [] \<in> set (case exclude_patterns normalizedRules of None \<Rightarrow> [] | Some ps \<Rightarrow> ps) then
                Some (createErrorResponse INVALID_INPUT ''Exclude patterns must be non-empty strings'', s)
              else crawlDiscovered n E normalizedSeedUrl normalizedRules
                     (effectiveLimit normalizedRules limit) s)))"

text \<open>Whether a call ended in an error envelope with the given code.\<close>

definition failsWith :: "ErrorCode \<Rightarrow> 'a Response option \<Rightarrow> bool" where
  "failsWith c r = (case r of Some (Failure c' m) \<Rightarrow> c' = c | _ \<Rightarrow> False)"

text \<open>Whether a call ended in an error envelope whose message contains the given text.\<close>

definition mentions :: "string \<Rightarrow> 'a Response option \<Rightarrow> bool" where
  "mentions txt r = (case r of Some (Failure c m) \<Rightarrow> includesStr m txt | _ \<Rightarrow> False)"

definition succeeded :: "'a Response \<Rightarrow> bool" where
  "succeeded r = (case r of Success d m \<Rightarrow> True | Failure c m \<Rightarrow> False)"

text \<open>The state a call starts in: nothing visited, nothing fetched.\<close>

definition freshState :: State where
  "freshState = \<lparr>visited = {}, fetched = []\<rparr>"

section \<open>Reading a frontier result\<close>





section \<open>Bookkeeping of the traversals\<close>

text \<open>The URLs whose document \<open>fetchSitemap\<close> delivers as an index.\<close>

definition indexDocument :: "Env \<Rightarrow> string \<Rightarrow> bool" where
  "indexDocument E u = (case fst (fetchSitemap E u freshState) of Inl t \<Rightarrow> False | Inr doc \<Rightarrow> isIndex doc)"

text \<open>The URLs that \<open>checkSitemap\<close> reports as an index.\<close>

definition probedAsIndex :: "Env \<Rightarrow> string \<Rightarrow> bool" where
  "probedAsIndex E u =
     (case fst (checkSitemap E u from_sitemap_index freshState) of
        None \<Rightarrow> False
      | Some sm \<Rightarrow> ds_type sm = sitemap_index)"

text \<open>The URLs fetched so far by one of the fetching functions, in order.\<close>

definition fetchedBy :: "fetcher \<Rightarrow> State \<Rightarrow> string list" where
  "fetchedBy who s = map snd (filter (\<lambda>e. fst e = who) (fetched s))"

text \<open>No URL was fetched twice by that function, and all it fetched are in the visited set.\<close>

definition logged :: "fetcher \<Rightarrow> State \<Rightarrow> bool" where
  "logged who s = (distinct (fetchedBy who s) \<and> set (fetchedBy who s) \<subseteq> visited s)"

text \<open>What a step of a traversal does to the state: the visited set grows and \<open>logged\<close> is kept.\<close>

definition grows :: "fetcher \<Rightarrow> State \<Rightarrow> State \<Rightarrow> bool" where
  "grows who s s' = (visited s \<subseteq> visited s' \<and> (logged who s \<longrightarrow> logged who s'))"

text \<open>The state after the fetch that \<open>discoverFromSitemapIndex\<close> makes for an unvisited URL.\<close>

definition expanding :: "State \<Rightarrow> string \<Rightarrow> State" where
  "expanding s u = s\<lparr>visited := insert u (visited s), fetched := fetched s @ [(ByIndexExpansion, u)]\<rparr>"

text \<open>The entries \<open>discoverFromSitemapIndex\<close> finds at a URL; \<open>None\<close> when it gives up.\<close>

definition entriesOf :: "Env \<Rightarrow> string \<Rightarrow> RawEntry list option" where
  "entriesOf E u =
     (case fetchUrl E u of
        Inl t \<Rightarrow> None
      | Inr r \<Rightarrow>
          if \<not> ok r then None
          else (case readBody u r of
                  Inl t \<Rightarrow> None
                | Inr content \<Rightarrow>
                    (case xmlParse E content of
                       Inl t \<Rightarrow> None
                     | Inr parsed \<Rightarrow> map_option childList (sitemapindex_sitemap parsed))))"

section \<open>A small web for the examples\<close>

text \<open>
  A URL parser for the examples: it knows the schemes \<open>https\<close>, \<open>http\<close> and \<open>ftp\<close>,
  and takes the origin up to the first slash after the scheme.
\<close>

definition demoParseUrl :: "string \<Rightarrow> Url option" where
  "demoParseUrl u =
     (if startsWith u ''https://'' \<and> 8 < length u then
        Some \<lparr>protocol = ''https:'', origin = ''https://'' @ takeWhile (\<lambda>c. c \<noteq> CHR ''/'') (drop 8 u)\<rparr>
      else if startsWith u ''http://'' \<and> 7 < length u then
        Some \<lparr>protocol = ''http:'', origin = ''http://'' @ takeWhile (\<lambda>c. c \<noteq> CHR ''/'') (drop 7 u)\<rparr>
      else if startsWith u ''ftp://'' \<and> 6 < length u then Some \<lparr>protocol = ''ftp:'', origin = ''null''\<rparr>
      else None)"

definition demoResponse :: "string \<Rightarrow> HttpResponse" where
  "demoResponse body =
     \<lparr>status = 200, statusText = ''OK'', contentType = Some ''application/xml'',
      textBody = Inr body, gunzipBody = Inl (ErrorObj ''Error'' ''incorrect header check'')\<rparr>"

definition demoEntry :: "string \<Rightarrow> RawEntry" where
  "demoEntry l = \<lparr>raw_loc = Some l, raw_lastmod = None, raw_changefreq = None, raw_priority = None\<rparr>"

definition demoPages :: "nat \<Rightarrow> RawEntry list" where
  "demoPages n = map (\<lambda>i. demoEntry (''https://example.com/page'' @ natToString i)) [0..<n]"

text \<open>
  The documents: \<open>/sitemap.xml\<close> is an index of \<open>/b.xml\<close> and \<open>/pages.xml\<close>; \<open>/b.xml\<close>
  is an index of \<open>/sitemap.xml\<close>, which closes a cycle; \<open>/pages.xml\<close> lists three pages,
  one of them twice; \<open>/big.xml\<close> lists 150 pages; \<open>/odd.html\<close> is not XML.
\<close>

definition demoXml :: "string \<Rightarrow> thrown + XmlDoc" where
  "demoXml content =
     (if content = ''<sitemapindex>a'' then
        Inr \<lparr>sitemapindex_sitemap = Some (Several [demoEntry ''https://example.com/b.xml'',
                                                      demoEntry ''https://example.com/pages.xml'']),
             urlset_url = None\<rparr>
      else if content = ''<sitemapindex>b'' then
        Inr \<lparr>sitemapindex_sitemap = Some (Single (demoEntry ''https://example.com/sitemap.xml'')),
             urlset_url = None\<rparr>
      else if content = ''<urlset>pages'' then
        Inr \<lparr>sitemapindex_sitemap = None,
             urlset_url = Some (Several [demoEntry ''https://example.com/page1'',
                                         demoEntry ''https://example.com/page2'',
                                         demoEntry ''https://example.com/page1'',
                                         demoEntry ''https://example.com/page3''])\<rparr>
      else if content = ''<urlset>big'' then
        Inr \<lparr>sitemapindex_sitemap = None, urlset_url = Some (Several (demoPages 150))\<rparr>
      else Inl (ErrorObj ''Error'' ''Unexpected token''))"

definition demoFetch :: "string \<Rightarrow> thrown + HttpResponse" where
  "demoFetch u =
     (if u = ''https://example.com/sitemap.xml'' then Inr (demoResponse ''<sitemapindex>a'')
      else if u = ''https://example.com/b.xml'' then Inr (demoResponse ''<sitemapindex>b'')
      else if u = ''https://example.com/pages.xml'' then Inr (demoResponse ''<urlset>pages'')
      else if u = ''https://example.com/big.xml'' then Inr (demoResponse ''<urlset>big'')
      else if u = ''https://example.com/odd.html'' then Inr (demoResponse ''<p>no <sitemapindex here'')
      else if u = ''https://example.com/robots.txt'' then
        Inr (demoResponse ''Sitemap: https://example.com/pages.xml'')
      else if u = ''https://example.com/slow.xml'' then Inl abortError
      else Inr ((demoResponse ''Not Found'')\<lparr>status := 404, statusText := ''Not Found''\<rparr>))"

definition demoEnv :: Env where
  "demoEnv = \<lparr>fetchUrl = demoFetch, xmlParse = demoXml, parseUrl = demoParseUrl\<rparr>"

text \<open>What \<open>/big.xml\<close> parses to.\<close>

definition demoBigDoc :: ParsedSitemap where
  "demoBigDoc = parseSitemapContent \<lparr>sitemapindex_sitemap = None, urlset_url = Some (Several (demoPages 150))\<rparr>"

text \<open>A network on which every fetch runs into its deadline.\<close>

definition slowEnv :: Env where
  "slowEnv = \<lparr>fetchUrl = (\<lambda>u. Inl abortError), xmlParse = demoXml, parseUrl = demoParseUrl\<rparr>"

section \<open>Pattern matching: the unescaped question mark\<close>

text \<open>
  Claim C3. A pattern's characters other than \<open>*\<close> are meant to match themselves. The
  question mark is left out of the escaped characters, so in the compiled expression it
  makes the character before it optional: a URL with a query string does not match the
  pattern equal to itself, which the glob of the specification accepts.
\<close>

theorem matchesPattern_question_mark_unescaped:
  "matchesPattern ''https://example.com/page?id=1'' ''https://example.com/page?id=1'' = False
   \<and> globMatch ''https://example.com/page?id=1'' ''https://example.com/page?id=1'' = True"
  by (simp add: matchesPattern_def compileAnchored_def regexPattern_def escapedChars_def
      setQuant_def atomMatches_def toUpper_def)

section \<open>The page size of the enumerator\<close>





section \<open>Classification of a candidate by the discoverer\<close>






section \<open>No sitemaps found\<close>

lemma buildCrawlFrontier_validated:
  assumes "seedUrl \<noteq> []" and "normalizeUrl E seedUrl = Some nurl"
    and "include_patterns (normalizeRules rules) = Some inc" and "[] \<notin> set inc"
    and "exclude_patterns (normalizeRules rules) = Some exc" and "[] \<notin> set exc"
  shows "buildCrawlFrontier n E seedUrl rules limit s =
          crawlDiscovered n E nurl (normalizeRules rules) (effectiveLimit (normalizeRules rules) limit) s"
  using assms by (simp add: buildCrawlFrontier_def Let_def)

text \<open>
  Claim C7. When the seed URL and the patterns pass validation and the discovery succeeds
  with no sitemap, the call is a success: an empty frontier, zero URLs, zero sitemaps
  processed, and the warning that no sitemaps were found.
\<close>

theorem zero_sitemaps_is_success:
  assumes "seedUrl \<noteq> []" and "normalizeUrl E seedUrl = Some nurl"
    and "include_patterns (normalizeRules rules) = Some inc" and "[] \<notin> set inc"
    and "exclude_patterns (normalizeRules rules) = Some exc" and "[] \<notin> set exc"
    and "discoverSitemaps n E nurl s = Some (Success d meta, s1)"
    and "sitemaps d = []"
  shows "buildCrawlFrontier n E seedUrl rules limit s =
           Some (Success
                   \<lparr>seed_url = nurl, frontier = [], total_urls = 0, sitemaps_processed = 0,
                    rules_applied = normalizeRules rules\<rparr>
                   \<lparr>source = Some nurl, pagination = None,
                    warnings = Some [''No sitemaps found for this domain. Frontier is empty.'']\<rparr>,
                 s1)"
  using assms(7,8) unfolding buildCrawlFrontier_validated [OF assms(1-6)]
  by (simp add: crawlDiscovered_def createSuccessResponse_def)

text \<open>On a network where every fetch runs into its deadline nothing is discovered.\<close>

lemma slow_discover:
  "discoverSitemaps 1 slowEnv ''https://example.com'' freshState =
     Some (Success \<lparr>domain = ''https://example.com'', sitemaps = [], robots_txt_found = False\<rparr>
             \<lparr>source = Some ''https://example.com'', pagination = None,
              warnings = Some [''No sitemaps found for this domain'']\<rparr>,
           \<lparr>visited = {},
            fetched = [(ByCheckSitemap, ''https://example.com/sitemap.xml''),
                       (ByRobotsTxt, ''https://example.com/robots.txt''),
                       (ByCheckSitemap, ''https://example.com/sitemap_index.xml''),
                       (ByCheckSitemap, ''https://example.com/sitemap.xml.gz''),
                       (ByCheckSitemap, ''https://example.com/sitemaps/sitemap.xml'')]\<rparr>)"
  by code_simp

lemma slow_normalize: "normalizeUrl slowEnv ''example.com'' = Some ''https://example.com''"
  by code_simp

theorem zero_sitemaps_is_success_witness:
  "buildCrawlFrontier 1 slowEnv ''example.com'' None None freshState =
     Some (Success
             \<lparr>seed_url = ''https://example.com'', frontier = [], total_urls = 0,
              sitemaps_processed = 0, rules_applied = normalizeRules None\<rparr>
             \<lparr>source = Some ''https://example.com'', pagination = None,
              warnings = Some [''No sitemaps found for this domain. Frontier is empty.'']\<rparr>,
           \<lparr>visited = {},
            fetched = [(ByCheckSitemap, ''https://example.com/sitemap.xml''),
                       (ByRobotsTxt, ''https://example.com/robots.txt''),
                       (ByCheckSitemap, ''https://example.com/sitemap_index.xml''),
                       (ByCheckSitemap, ''https://example.com/sitemap.xml.gz''),
                       (ByCheckSitemap, ''https://example.com/sitemaps/sitemap.xml'')]\<rparr>)"
proof -
  have a: "''example.com'' \<noteq> []" by simp
  have i: "include_patterns (normalizeRules None) = Some []" by (simp add: normalizeRules_def)
  have e: "exclude_patterns (normalizeRules None) = Some []" by (simp add: normalizeRules_def)
  have m: "[] \<notin> set ([] :: string list)" by simp
  have z: "sitemaps \<lparr>domain = ''https://example.com'', sitemaps = [], robots_txt_found = False\<rparr> = []"
    by simp
  show ?thesis
    by (rule zero_sitemaps_is_success [OF a slow_normalize i m e m slow_discover z])
qed

section \<open>Empty patterns\<close>

text \<open>
  The seed URL is validated before the patterns, and the include list before the exclude
  list: with an empty seed URL the message is about the seed URL, and with an empty pattern
  in both lists it is about the include list.
\<close>

theorem empty_pattern_counterexample:
  "failsWith INVALID_INPUT
     (map_option fst (buildCrawlFrontier 1 demoEnv []
        (Some \<lparr>include_patterns = Some [[]], exclude_patterns = None, max_urls = None\<rparr>) None freshState))
   \<and> \<not> mentions ''Include patterns''
     (map_option fst (buildCrawlFrontier 1 demoEnv []
        (Some \<lparr>include_patterns = Some [[]], exclude_patterns = None, max_urls = None\<rparr>) None freshState))
   \<and> failsWith INVALID_INPUT
     (map_option fst (buildCrawlFrontier 1 demoEnv ''https://example.com''
        (Some \<lparr>include_patterns = Some [[]], exclude_patterns = Some [[]], max_urls = None\<rparr>) None freshState))
   \<and> \<not> mentions ''Exclude patterns''
     (map_option fst (buildCrawlFrontier 1 demoEnv ''https://example.com''
        (Some \<lparr>include_patterns = Some [[]], exclude_patterns = Some [[]], max_urls = None\<rparr>) None freshState))"
  by code_simp

text \<open>
  Claim C6, amended. An empty pattern in the include or the exclude list makes the call fail
  with \<open>INVALID_INPUT\<close> and leaves the state as it was: nothing has been fetched. When
  the seed URL passes validation the message is the one about include patterns; when
  moreover the include list has no empty pattern, it is the one about exclude patterns.
\<close>

theorem empty_pattern_fails_before_network:
  fixes r :: CrawlFrontierRules
  defines "inc \<equiv> (case include_patterns r of None \<Rightarrow> [] | Some ps \<Rightarrow> ps)"
      and "exc \<equiv> (case exclude_patterns r of None \<Rightarrow> [] | Some ps \<Rightarrow> ps)"
  shows "([] \<in> set inc \<or> [] \<in> set exc \<longrightarrow>
            (\<exists>m. buildCrawlFrontier n E seedUrl (Some r) limit s = Some (Failure INVALID_INPUT m, s)))
       \<and> (seedUrl \<noteq> [] \<and> normalizeUrl E seedUrl \<noteq> None \<and> [] \<in> set inc \<longrightarrow>
            buildCrawlFrontier n E seedUrl (Some r) limit s =
              Some (Failure INVALID_INPUT ''Include patterns must be non-empty strings'', s))
       \<and> (seedUrl \<noteq> [] \<and> normalizeUrl E seedUrl \<noteq> None \<and> [] \<notin> set inc \<and> [] \<in> set exc \<longrightarrow>
            buildCrawlFrontier n E seedUrl (Some r) limit s =
              Some (Failure INVALID_INPUT ''Exclude patterns must be non-empty strings'', s))
       \<and> includesStr ''Include patterns must be non-empty strings'' ''Include patterns''
       \<and> includesStr ''Exclude patterns must be non-empty strings'' ''Exclude patterns''"
proof -
  have i: "include_patterns (normalizeRules (Some r)) = Some inc"
    and e: "exclude_patterns (normalizeRules (Some r)) = Some exc"
    by (simp_all add: normalizeRules_def inc_def exc_def)
  have 1: "[] \<in> set inc \<or> [] \<in> set exc \<Longrightarrow>
            \<exists>m. buildCrawlFrontier n E seedUrl (Some r) limit s = Some (Failure INVALID_INPUT m, s)"
    by (auto simp: buildCrawlFrontier_def Let_def i e createErrorResponse_def split: option.splits)
  have 2: "seedUrl \<noteq> [] \<and> normalizeUrl E seedUrl \<noteq> None \<and> [] \<in> set inc \<Longrightarrow>
            buildCrawlFrontier n E seedUrl (Some r) limit s =
              Some (Failure INVALID_INPUT ''Include patterns must be non-empty strings'', s)"
    by (auto simp: buildCrawlFrontier_def Let_def i e createErrorResponse_def split: option.splits)
  have 3: "seedUrl \<noteq> [] \<and> normalizeUrl E seedUrl \<noteq> None \<and> [] \<notin> set inc \<and> [] \<in> set exc \<Longrightarrow>
            buildCrawlFrontier n E seedUrl (Some r) limit s =
              Some (Failure INVALID_INPUT ''Exclude patterns must be non-empty strings'', s)"
    by (auto simp: buildCrawlFrontier_def Let_def i e createErrorResponse_def split: option.splits)
  have 4: "includesStr ''Include patterns must be non-empty strings'' ''Include patterns''"
    by simp
  have 5: "includesStr ''Exclude patterns must be non-empty strings'' ''Exclude patterns''"
    by simp
  show ?thesis using 1 2 3 4 5 by blast
qed

theorem empty_pattern_fails_before_network_witness:
  "buildCrawlFrontier 1 demoEnv ''https://example.com''
      (Some \<lparr>include_patterns = Some [[]], exclude_patterns = None, max_urls = None\<rparr>) None freshState
     = Some (Failure INVALID_INPUT ''Include patterns must be non-empty strings'', freshState)
   \<and> buildCrawlFrontier 1 demoEnv ''https://example.com''
      (Some \<lparr>include_patterns = None, exclude_patterns = Some [''*admin*'', []], max_urls = None\<rparr>) None freshState
     = Some (Failure INVALID_INPUT ''Exclude patterns must be non-empty strings'', freshState)"
proof -
  have v: "''https://example.com'' \<noteq> [] \<and> normalizeUrl demoEnv ''https://example.com'' \<noteq> None"
    by code_simp
  show ?thesis
    using v
      empty_pattern_fails_before_network [where r = "\<lparr>include_patterns = Some [[]], exclude_patterns = None, max_urls = None\<rparr>"
         and seedUrl = "''https://example.com''" and E = demoEnv and n = 1 and limit = None and s = freshState]
      empty_pattern_fails_before_network [where r = "\<lparr>include_patterns = None, exclude_patterns = Some [''*admin*'', []], max_urls = None\<rparr>"
         and seedUrl = "''https://example.com''" and E = demoEnv and n = 1 and limit = None and s = freshState]
    by simp
qed

section \<open>Timeouts\<close>

















lemma createSuccessResponse_succeeds [simp]: "succeeded (createSuccessResponse a b c d)"
  by (simp add: createSuccessResponse_def succeeded_def)

lemma assembleFrontier_succeeds [simp]: "succeeded (assembleFrontier a b c d e f)"
  by (simp add: assembleFrontier_def Let_def)








section \<open>Pagination\<close>

lemma slice_nat: "slice xs (int k) (int k + int p) = take p (drop k xs)"
  by (auto simp: slice_def relIndex_def min_def nat_add_distrib)

lemma offsetOf_obj:
  "map_of ms ''offset'' = Some (JNum (of_nat k)) \<Longrightarrow> offsetOf (JObj ms) = OffsetInt (int k)"
  by (simp add: offsetOf_def)

lemma falsy_obj [simp]: "\<not> falsy (JObj ms)"
  by (simp add: falsy_def)

lemma pageLimit_bounds: "1 \<le> pageLimit l" "pageLimit l \<le> 1000"
  by (simp_all add: pageLimit_def)

lemma decode_cursor_100:
  "decodeCursor (encodeCursor \<lparr>offset = 100, sitemap_url = None\<rparr>) = Some (JObj [(''offset'', JNum 100)])"
  by code_simp

lemma encode_cursor_100_nonempty: "encodeCursor \<lparr>offset = 100, sitemap_url = None\<rparr> \<noteq> []"
  by code_simp

lemma listPage_nat:
  assumes "1 \<le> pl"
  shows "listPage u doc pl (Some (int k)) = expectedPage u doc k (nat pl)"
proof -
  obtain p where p: "pl = int p" using assms by (metis nat_0_le order_trans zero_le_one)
  show ?thesis unfolding p
    by (simp add: listPage_def expectedPage_def Let_def createSuccessResponse_def slice_nat)
qed

lemma listSitemapUrls_page:
  assumes "u \<noteq> []" "isValidUrl E u" "fetchSitemap E u s = (Inr doc, s1)"
    and "cursor = None \<and> k = 0
         \<or> (\<exists>c ms. cursor = Some c \<and> c \<noteq> [] \<and> decodeCursor c = Some (JObj ms)
                    \<and> map_of ms ''offset'' = Some (JNum (of_nat k)))"
  shows "listSitemapUrls E u limit cursor s = (Some (expectedPage u doc k (nat (pageLimit limit))), s1)"
  using assms(4)
proof
  assume "cursor = None \<and> k = 0"
  then show ?thesis
    using assms(1-3) listPage_nat [OF pageLimit_bounds(1), where u = u and doc = doc and k = 0 and l1 = limit]
    by (simp add: listSitemapUrls_def Let_def)
next
  assume "\<exists>c ms. cursor = Some c \<and> c \<noteq> [] \<and> decodeCursor c = Some (JObj ms)
                  \<and> map_of ms ''offset'' = Some (JNum (of_nat k))"
  then obtain c ms where c: "cursor = Some c" "c \<noteq> []" "decodeCursor c = Some (JObj ms)"
      "map_of ms ''offset'' = Some (JNum (of_nat k))" by blast
  show ?thesis
    using assms(1-3) c(1-3) offsetOf_obj [OF c(4)]
      listPage_nat [OF pageLimit_bounds(1), where u = u and doc = doc and k = k and l1 = limit]
    by (simp add: listSitemapUrls_def Let_def)
qed

text \<open>
  Claim C4. When the URL is valid and the document is fetched and parsed, the call with no
  cursor (offset 0) or with a cursor that decodes to an object with offset \<open>k\<close> returns
  the entries at the positions from \<open>k\<close> up to \<open>k + p\<close>, in order, for the page size
  \<open>p\<close> (100 by default, at most 1000), and a cursor for \<open>k + p\<close> exactly when
  \<open>k + p\<close> is below the number of entries. On 150 entries a limit of 100 gives 100
  entries and a cursor, and the call with that cursor gives the other 50 and no cursor.
\<close>

theorem listSitemapUrls_pagination:
  assumes "u \<noteq> []" and "isValidUrl E u" and "fetchSitemap E u s = (Inr doc, s1)"
  shows "(cursor = None \<and> k = 0
          \<or> (\<exists>c ms. cursor = Some c \<and> c \<noteq> [] \<and> decodeCursor c = Some (JObj ms)
                     \<and> map_of ms ''offset'' = Some (JNum (of_nat k)))
          \<longrightarrow> listSitemapUrls E u limit cursor s
                = (Some (expectedPage u doc k (nat (pageLimit limit))), s1))
       \<and> pageLimit None = 100 \<and> pageLimit limit \<le> 1000
       \<and> (length (urls doc) = 150 \<longrightarrow>
            listSitemapUrls E u (Some 100) None s =
              (Some (Success
                       \<lparr>lsu_sitemap_url = u, lsu_urls = take 100 (urls doc), total_in_page = 100,
                        is_index = isIndex doc\<rparr>
                       \<lparr>source = Some u,
                        pagination = Some (Some (encodeCursor \<lparr>offset = 100, sitemap_url = None\<rparr>)),
                        warnings = Some []\<rparr>), s1)
            \<and> listSitemapUrls E u (Some 100) (Some (encodeCursor \<lparr>offset = 100, sitemap_url = None\<rparr>)) s =
              (Some (Success
                       \<lparr>lsu_sitemap_url = u, lsu_urls = drop 100 (urls doc), total_in_page = 50,
                        is_index = isIndex doc\<rparr>
                       \<lparr>source = Some u, pagination = Some None, warnings = Some []\<rparr>), s1))"
proof -
  have p100: "nat (pageLimit (Some 100)) = 100" by (simp add: pageLimit_def)
  have first: "listSitemapUrls E u (Some 100) None s = (Some (expectedPage u doc 0 100), s1)"
    using listSitemapUrls_page [OF assms, of None 0 "Some 100"] by (simp add: p100)
  have m: "map_of [(''offset'', JNum 100)] ''offset'' = Some (JNum (of_nat 100))" by simp
  have second: "listSitemapUrls E u (Some 100) (Some (encodeCursor \<lparr>offset = 100, sitemap_url = None\<rparr>)) s
                  = (Some (expectedPage u doc 100 100), s1)"
    using listSitemapUrls_page [OF assms, of "Some (encodeCursor \<lparr>offset = 100, sitemap_url = None\<rparr>)" 100 "Some 100"]
      decode_cursor_100 encode_cursor_100_nonempty m
    by (simp add: p100)
  have ex: "length (urls doc) = 150 \<Longrightarrow>
       expectedPage u doc 0 100 = Success
                       \<lparr>lsu_sitemap_url = u, lsu_urls = take 100 (urls doc), total_in_page = 100,
                        is_index = isIndex doc\<rparr>
                       \<lparr>source = Some u,
                        pagination = Some (Some (encodeCursor \<lparr>offset = 100, sitemap_url = None\<rparr>)),
                        warnings = Some []\<rparr>
       \<and> expectedPage u doc 100 100 = Success
                       \<lparr>lsu_sitemap_url = u, lsu_urls = drop 100 (urls doc), total_in_page = 50,
                        is_index = isIndex doc\<rparr>
                       \<lparr>source = Some u, pagination = Some None, warnings = Some []\<rparr>"
    by (simp add: expectedPage_def)
  show ?thesis
    using listSitemapUrls_page [OF assms, of cursor k limit] first second ex pageLimit_bounds(2) [of limit]
    by (simp add: pageLimit_def)
qed

lemma demoBig_response:
  "fetchUrl demoEnv ''https://example.com/big.xml'' = Inr (demoResponse ''<urlset>big'')"
  by (simp add: demoEnv_def demoFetch_def)

lemma demoBig_body:
  "readBody ''https://example.com/big.xml'' (demoResponse ''<urlset>big'') = Inr ''<urlset>big''"
  by (simp add: readBody_def demoResponse_def endsWith_def)

lemma demoBig_xml:
  "xmlParse demoEnv ''<urlset>big'' =
     Inr \<lparr>sitemapindex_sitemap = None, urlset_url = Some (Several (demoPages 150))\<rparr>"
  by (simp add: demoEnv_def demoXml_def)

lemma demoResponse_ok: "ok (demoResponse b)"
  by (simp add: ok_def demoResponse_def)

lemma demoBig_fetch:
  "fetchSitemap demoEnv ''https://example.com/big.xml'' freshState =
     (Inr demoBigDoc, \<lparr>visited = {}, fetched = [(ByFetchSitemap, ''https://example.com/big.xml'')]\<rparr>)"
  unfolding fetchSitemap_def fetchWithTimeout_def demoBig_response
  by (simp add: demoResponse_ok demoBig_body demoBig_xml demoBigDoc_def freshState_def)

lemma hasLoc_demoEntry: "hasLoc (demoEntry (a # l))"
  by (simp add: hasLoc_def demoEntry_def)

lemma demoPages_hasLoc: "filter hasLoc (demoPages n) = demoPages n"
  unfolding demoPages_def by (rule filter_True) (auto simp: hasLoc_demoEntry)

lemma demoBig_length: "length (urls demoBigDoc) = 150"
  unfolding demoBigDoc_def parseSitemapContent_def childList_def
  by (simp add: demoPages_hasLoc) (simp add: demoPages_def)

lemma demoBig_valid: "isValidUrl demoEnv ''https://example.com/big.xml''"
  by code_simp

theorem listSitemapUrls_pagination_witness:
  "listSitemapUrls demoEnv ''https://example.com/big.xml'' (Some 100) None freshState =
     (Some (Success
              \<lparr>lsu_sitemap_url = ''https://example.com/big.xml'', lsu_urls = take 100 (urls demoBigDoc),
               total_in_page = 100, is_index = isIndex demoBigDoc\<rparr>
              \<lparr>source = Some ''https://example.com/big.xml'',
               pagination = Some (Some (encodeCursor \<lparr>offset = 100, sitemap_url = None\<rparr>)),
               warnings = Some []\<rparr>),
      \<lparr>visited = {}, fetched = [(ByFetchSitemap, ''https://example.com/big.xml'')]\<rparr>)
   \<and> listSitemapUrls demoEnv ''https://example.com/big.xml'' (Some 100)
       (Some (encodeCursor \<lparr>offset = 100, sitemap_url = None\<rparr>)) freshState =
     (Some (Success
              \<lparr>lsu_sitemap_url = ''https://example.com/big.xml'', lsu_urls = drop 100 (urls demoBigDoc),
               total_in_page = 50, is_index = isIndex demoBigDoc\<rparr>
              \<lparr>source = Some ''https://example.com/big.xml'', pagination = Some None,
               warnings = Some []\<rparr>),
      \<lparr>visited = {}, fetched = [(ByFetchSitemap, ''https://example.com/big.xml'')]\<rparr>)"
proof -
  have ne: "''https://example.com/big.xml'' \<noteq> []" by simp
  show ?thesis
    using listSitemapUrls_pagination [OF ne demoBig_valid demoBig_fetch, of None 0 None] demoBig_length
    by blast
qed

section \<open>Cycles of sitemap indexes\<close>

lemma fetchSitemap_state:
  "fetchSitemap E u s = (fst (fetchSitemap E u freshState), s\<lparr>fetched := fetched s @ [(ByFetchSitemap, u)]\<rparr>)"
  by (simp add: fetchSitemap_def fetchWithTimeout_def freshState_def split: sum.splits)

lemma grows_refl [simp]: "grows who s s"
  by (simp add: grows_def)

lemma grows_trans: "grows who s s1 \<Longrightarrow> grows who s1 s2 \<Longrightarrow> grows who s s2"
  by (auto simp: grows_def)

lemma grows_fetchSitemap:
  "u \<notin> visited s \<Longrightarrow>
   grows ByFetchSitemap s (s\<lparr>visited := insert u (visited s), fetched := fetched s @ [(ByFetchSitemap, u)]\<rparr>)"
  by (auto simp: grows_def logged_def fetchedBy_def)

lemma collectChildren_grows:
  assumes "\<And>u rules m s r s'. collectUrlsFromSitemap k E u rules m s = Some (r, s') \<Longrightarrow> grows ByFetchSitemap s s'"
  shows "collectChildren k E cs rules m acc pr s = Some (r, s') \<Longrightarrow> grows ByFetchSitemap s s'"
proof (induction cs arbitrary: acc pr s)
  case Nil
  then show ?case by simp
next
  case (Cons c cs)
  show ?case
  proof (cases "m \<le> int (length acc)")
    case True
    then show ?thesis using Cons.prems by simp
  next
    case False
    then obtain cu cp s1 where
      c: "collectUrlsFromSitemap k E c rules (m - int (length acc)) s = Some ((cu, cp), s1)"
      and r: "collectChildren k E cs rules m (acc @ cu) (pr + cp) s1 = Some (r, s')"
      using Cons.prems by (auto split: option.splits)
    show ?thesis using grows_trans [OF assms [OF c] Cons.IH [OF r]] .
  qed
qed

lemma collectUrls_grows:
  "collectUrlsFromSitemap k E u rules m s = Some (r, s') \<Longrightarrow> grows ByFetchSitemap s s'"
proof (induction k arbitrary: u rules m s r s')
  case 0
  then show ?case by simp
next
  case (Suc k)
  show ?case
  proof (cases "u \<in> visited s")
    case True
    then show ?thesis using Suc.prems by simp
  next
    case False
    define s1 where "s1 = s\<lparr>visited := insert u (visited s), fetched := fetched s @ [(ByFetchSitemap, u)]\<rparr>"
    have f: "fetchSitemap E u (s\<lparr>visited := insert u (visited s)\<rparr>) = (fst (fetchSitemap E u freshState), s1)"
      by (subst fetchSitemap_state) (simp add: s1_def)
    have g1: "grows ByFetchSitemap s s1" unfolding s1_def by (rule grows_fetchSitemap [OF False])
    show ?thesis
    proof (cases "fst (fetchSitemap E u freshState)")
      case (Inl t)
      then show ?thesis using Suc.prems False f g1 by simp
    next
      case (Inr doc)
      show ?thesis
      proof (cases "isIndex doc")
        case True
        then have "collectChildren k E (indexUrls doc) rules m [] 1 s1 = Some (r, s')"
          using Suc.prems False f Inr by simp
        then have "grows ByFetchSitemap s1 s'" using collectChildren_grows Suc.IH by blast
        then show ?thesis using g1 grows_trans by blast
      next
        case False
        then show ?thesis using Suc.prems \<open>u \<notin> visited s\<close> f Inr g1 by simp
      qed
    qed
  qed
qed

lemma card_Diff_mono: "finite X \<Longrightarrow> A \<subseteq> B \<Longrightarrow> card (X - B) \<le> card (X - A)"
  by (intro card_mono) auto

lemma card_Diff_insert_less:
  "finite X \<Longrightarrow> u \<in> X \<Longrightarrow> u \<notin> A \<Longrightarrow> card (X - insert u A) < card (X - A)"
  by (intro psubset_card_mono) auto

lemma collectChildren_returns:
  assumes fin: "finite X"
    and urls: "\<And>u rules m s. card (X - visited s) < k \<Longrightarrow> \<exists>r. collectUrlsFromSitemap k E u rules m s = Some r"
  shows "card (X - visited s) < k \<Longrightarrow> \<exists>r. collectChildren k E cs rules m acc pr s = Some r"
proof (induction cs arbitrary: acc pr s)
  case Nil
  then show ?case by simp
next
  case (Cons c cs)
  show ?case
  proof (cases "m \<le> int (length acc)")
    case True
    then show ?thesis by simp
  next
    case False
    obtain cu cp s1 where
      c: "collectUrlsFromSitemap k E c rules (m - int (length acc)) s = Some ((cu, cp), s1)"
      using urls [OF Cons.prems] by (metis surj_pair)
    have "visited s \<subseteq> visited s1" using collectUrls_grows [OF c] by (simp add: grows_def)
    then have "card (X - visited s1) < k" using card_Diff_mono [OF fin] Cons.prems by (meson le_less_trans)
    then show ?thesis using Cons.IH False c by simp
  qed
qed

lemma collectUrls_returns:
  assumes fin: "finite {u. indexDocument E u}"
  shows "card ({u. indexDocument E u} - visited s) < k \<Longrightarrow> \<exists>r. collectUrlsFromSitemap k E u rules m s = Some r"
proof (induction k arbitrary: u rules m s)
  case 0
  then show ?case by simp
next
  case (Suc k)
  let ?X = "{u. indexDocument E u}"
  show ?case
  proof (cases "u \<in> visited s")
    case True
    then show ?thesis by simp
  next
    case False
    define s1 where "s1 = s\<lparr>visited := insert u (visited s), fetched := fetched s @ [(ByFetchSitemap, u)]\<rparr>"
    have f: "fetchSitemap E u (s\<lparr>visited := insert u (visited s)\<rparr>) = (fst (fetchSitemap E u freshState), s1)"
      by (subst fetchSitemap_state) (simp add: s1_def)
    show ?thesis
    proof (cases "fst (fetchSitemap E u freshState)")
      case (Inl t)
      then show ?thesis using False f by simp
    next
      case (Inr doc)
      show ?thesis
      proof (cases "isIndex doc")
        case True
        then have "u \<in> ?X" using Inr by (simp add: indexDocument_def)
        then have "card (?X - visited s1) < card (?X - visited s)"
          using card_Diff_insert_less [OF fin _ False] by (simp add: s1_def)
        then have "card (?X - visited s1) < k" using Suc.prems by simp
        then have "\<exists>r. collectChildren k E (indexUrls doc) rules m [] 1 s1 = Some r"
          using collectChildren_returns [OF fin] Suc.IH by blast
        then show ?thesis using False f Inr True by simp
      next
        case False
        then show ?thesis using \<open>u \<notin> visited s\<close> f Inr by simp
      qed
    qed
  qed
qed

lemma collectChildren_more_fuel:
  assumes "\<And>u rules m s r. collectUrlsFromSitemap k E u rules m s = Some r
             \<Longrightarrow> collectUrlsFromSitemap (Suc k) E u rules m s = Some r"
  shows "collectChildren k E cs rules m acc pr s = Some r
         \<Longrightarrow> collectChildren (Suc k) E cs rules m acc pr s = Some r"
proof (induction cs arbitrary: acc pr s)
  case Nil
  then show ?case by simp
next
  case (Cons c cs)
  show ?case
  proof (cases "m \<le> int (length acc)")
    case True
    then show ?thesis using Cons.prems by simp
  next
    case False
    then obtain cu cp s1 where
      c: "collectUrlsFromSitemap k E c rules (m - int (length acc)) s = Some ((cu, cp), s1)"
      and r: "collectChildren k E cs rules m (acc @ cu) (pr + cp) s1 = Some r"
      using Cons.prems by (auto split: option.splits)
    show ?thesis using False assms [OF c] Cons.IH [OF r] by simp
  qed
qed

lemma collectUrls_Suc_fuel:
  "collectUrlsFromSitemap k E u rules m s = Some r \<Longrightarrow> collectUrlsFromSitemap (Suc k) E u rules m s = Some r"
proof (induction k arbitrary: u rules m s r)
  case 0
  then show ?case by simp
next
  case (Suc k)
  show ?case
  proof (cases "u \<in> visited s")
    case True
    then show ?thesis using Suc.prems by simp
  next
    case False
    obtain res s1 where f: "fetchSitemap E u (s\<lparr>visited := insert u (visited s)\<rparr>) = (res, s1)"
      by (cases "fetchSitemap E u (s\<lparr>visited := insert u (visited s)\<rparr>)")
    show ?thesis
    proof (cases res)
      case (Inl t)
      then show ?thesis using Suc.prems False f by simp
    next
      case (Inr doc)
      show ?thesis
      proof (cases "isIndex doc")
        case True
        then have "collectChildren k E (indexUrls doc) rules m [] 1 s1 = Some r"
          using Suc.prems False f Inr by simp
        then have "collectChildren (Suc k) E (indexUrls doc) rules m [] 1 s1 = Some r"
          using collectChildren_more_fuel Suc.IH by blast
        then show ?thesis using False f Inr True by simp
      next
        case False
        then show ?thesis using Suc.prems \<open>u \<notin> visited s\<close> f Inr by simp
      qed
    qed
  qed
qed

lemma collectUrls_add_fuel:
  "collectUrlsFromSitemap k E u rules m s = Some r \<Longrightarrow> collectUrlsFromSitemap (k + d) E u rules m s = Some r"
proof (induction d)
  case 0
  then show ?case by (simp only: add_0_right)
next
  case (Suc d)
  show ?case using collectUrls_Suc_fuel [OF Suc.IH [OF Suc.prems]] by (simp only: add_Suc_right)
qed

lemma collectUrls_more_fuel:
  "collectUrlsFromSitemap k E u rules m s = Some r \<Longrightarrow> k \<le> k'
   \<Longrightarrow> collectUrlsFromSitemap k' E u rules m s = Some r"
  using collectUrls_add_fuel [of k E u rules m s r "k' - k"] by simp

lemma collectUrls_total:
  assumes "finite {u. indexDocument E u}"
  shows "\<exists>r. \<forall>k > card {u. indexDocument E u}. collectUrlsFromSitemap k E u rules m s = Some r"
proof -
  let ?X = "{u. indexDocument E u}"
  have "card (?X - visited s) < Suc (card ?X)"
    using card_mono [OF assms, of "?X - visited s"] by auto
  then obtain r where r: "collectUrlsFromSitemap (Suc (card ?X)) E u rules m s = Some r"
    using collectUrls_returns [OF assms] by blast
  have "\<forall>k > card ?X. collectUrlsFromSitemap k E u rules m s = Some r"
    using collectUrls_more_fuel [OF r] by (simp add: Suc_le_eq)
  then show ?thesis by blast
qed

lemma checkSitemap_state:
  "checkSitemap E u from s =
     (fst (checkSitemap E u from freshState), s\<lparr>fetched := fetched s @ [(ByCheckSitemap, u)]\<rparr>)"
  by (simp add: checkSitemap_def fetchWithTimeout_def freshState_def Let_def split: sum.splits)

lemma grows_checkSitemap:
  "grows ByIndexExpansion s (s\<lparr>fetched := fetched s @ [(ByCheckSitemap, u)]\<rparr>)"
  by (simp add: grows_def logged_def fetchedBy_def)

lemma grows_expansion:
  "u \<notin> visited s \<Longrightarrow>
   grows ByIndexExpansion s
     (s\<lparr>visited := insert u (visited s), fetched := fetched s @ [(ByIndexExpansion, u)]\<rparr>)"
  by (auto simp: grows_def logged_def fetchedBy_def)

text \<open>The state after the fetch of an expansion, and what the expansion does next.\<close>

lemma discoverFromSitemapIndex_Suc:
  "discoverFromSitemapIndex (Suc n) E u s =
     (if u \<in> visited s then Some ([], s)
      else (case entriesOf E u of
              None \<Rightarrow> Some ([], expanding s u)
            | Some es \<Rightarrow> discoverEntries n E es [] (expanding s u)))"
  by (simp add: entriesOf_def expanding_def fetchWithTimeout_def split: sum.splits option.splits)

lemma discoverEntries_Cons:
  "discoverEntries n E (e # es) acc s =
     (if hasLoc e \<and> isValidUrl E (the (raw_loc e)) \<and> the (raw_loc e) \<notin> visited s then
        (case fst (checkSitemap E (the (raw_loc e)) from_sitemap_index freshState) of
           None \<Rightarrow> discoverEntries n E es acc (s\<lparr>fetched := fetched s @ [(ByCheckSitemap, the (raw_loc e))]\<rparr>)
         | Some sm \<Rightarrow>
             if ds_type sm = sitemap_index then
               (case discoverFromSitemapIndex n E (the (raw_loc e))
                       (s\<lparr>fetched := fetched s @ [(ByCheckSitemap, the (raw_loc e))]\<rparr>) of
                  None \<Rightarrow> None
                | Some (nested, s2) \<Rightarrow> discoverEntries n E es (acc @ [sm] @ nested) s2)
             else discoverEntries n E es (acc @ [sm])
                    (s\<lparr>fetched := fetched s @ [(ByCheckSitemap, the (raw_loc e))]\<rparr>))
      else discoverEntries n E es acc s)"
  by (subst discoverEntries.simps, subst checkSitemap_state) (simp split: option.splits)

lemmas discover_simps_off = discoverFromSitemapIndex.simps(2) discoverEntries.simps(2)

lemma discoverEntries_grows:
  assumes "\<And>u s r s'. discoverFromSitemapIndex k E u s = Some (r, s') \<Longrightarrow> grows ByIndexExpansion s s'"
  shows "discoverEntries k E es acc s = Some (r, s') \<Longrightarrow> grows ByIndexExpansion s s'"
proof (induction es arbitrary: acc s)
  case Nil
  then show ?case by simp
next
  case (Cons e es)
  let ?l = "the (raw_loc e)"
  let ?s1 = "s\<lparr>fetched := fetched s @ [(ByCheckSitemap, ?l)]\<rparr>"
  have g1: "grows ByIndexExpansion s ?s1" by (rule grows_checkSitemap)
  show ?case
  proof (cases "hasLoc e \<and> isValidUrl E ?l \<and> ?l \<notin> visited s")
    case False
    then show ?thesis using Cons.prems Cons.IH by (auto simp: discoverEntries_Cons simp del: discover_simps_off)
  next
    case True
    show ?thesis
    proof (cases "fst (checkSitemap E ?l from_sitemap_index freshState)")
      case None
      then have "discoverEntries k E es acc ?s1 = Some (r, s')"
        using Cons.prems True by (simp add: discoverEntries_Cons del: discover_simps_off)
      then show ?thesis using Cons.IH g1 grows_trans by blast
    next
      case (Some sm)
      show ?thesis
      proof (cases "ds_type sm = sitemap_index")
        case False
        then have "discoverEntries k E es (acc @ [sm]) ?s1 = Some (r, s')"
          using Cons.prems True Some by (simp add: discoverEntries_Cons del: discover_simps_off)
        then show ?thesis using Cons.IH g1 grows_trans by blast
      next
        case idx: True
        then obtain nested s2 where
          n: "discoverFromSitemapIndex k E ?l ?s1 = Some (nested, s2)"
          and r: "discoverEntries k E es (acc @ [sm] @ nested) s2 = Some (r, s')"
          using Cons.prems True Some
          by (auto simp: discoverEntries_Cons simp del: discover_simps_off split: option.splits)
        show ?thesis using g1 assms [OF n] Cons.IH [OF r] grows_trans by blast
      qed
    qed
  qed
qed

lemma discoverIndex_grows:
  "discoverFromSitemapIndex k E u s = Some (r, s') \<Longrightarrow> grows ByIndexExpansion s s'"
proof (induction k arbitrary: u s r s')
  case 0
  then show ?case by simp
next
  case (Suc k)
  show ?case
  proof (cases "u \<in> visited s")
    case True
    then show ?thesis using Suc.prems by (simp add: discoverFromSitemapIndex_Suc del: discover_simps_off)
  next
    case False
    have g1: "grows ByIndexExpansion s (expanding s u)"
      unfolding expanding_def by (rule grows_expansion [OF False])
    show ?thesis
    proof (cases "entriesOf E u")
      case None
      then show ?thesis using Suc.prems False g1
        by (simp add: discoverFromSitemapIndex_Suc del: discover_simps_off)
    next
      case (Some es)
      then have "discoverEntries k E es [] (expanding s u) = Some (r, s')"
        using Suc.prems False by (simp add: discoverFromSitemapIndex_Suc del: discover_simps_off)
      then have "grows ByIndexExpansion (expanding s u) s'"
        using discoverEntries_grows Suc.IH by blast
      then show ?thesis using g1 grows_trans by blast
    qed
  qed
qed

lemma discoverEntries_returns:
  assumes fin: "finite {u. probedAsIndex E u}"
    and idx: "\<And>u s. card ({u. probedAsIndex E u} - insert u (visited s)) < k
                   \<Longrightarrow> \<exists>r. discoverFromSitemapIndex k E u s = Some r"
  shows "card ({u. probedAsIndex E u} - visited s) \<le> k \<Longrightarrow> \<exists>r. discoverEntries k E es acc s = Some r"
proof (induction es arbitrary: acc s)
  case Nil
  then show ?case by simp
next
  case (Cons e es)
  let ?X = "{u. probedAsIndex E u}"
  let ?l = "the (raw_loc e)"
  let ?s1 = "s\<lparr>fetched := fetched s @ [(ByCheckSitemap, ?l)]\<rparr>"
  have c1: "card (?X - visited ?s1) \<le> k" using Cons.prems by simp
  show ?case
  proof (cases "hasLoc e \<and> isValidUrl E ?l \<and> ?l \<notin> visited s")
    case False
    then show ?thesis using Cons.IH [OF Cons.prems]
      by (auto simp: discoverEntries_Cons simp del: discover_simps_off)
  next
    case True
    show ?thesis
    proof (cases "fst (checkSitemap E ?l from_sitemap_index freshState)")
      case None
      then show ?thesis using Cons.IH [OF c1] True
        by (simp add: discoverEntries_Cons del: discover_simps_off)
    next
      case (Some sm)
      show ?thesis
      proof (cases "ds_type sm = sitemap_index")
        case False
        then show ?thesis using Cons.IH [OF c1] True Some
          by (simp add: discoverEntries_Cons del: discover_simps_off)
      next
        case idx: True
        then have "?l \<in> ?X" using Some by (simp add: probedAsIndex_def)
        then have "card (?X - insert ?l (visited ?s1)) < card (?X - visited s)"
          using card_Diff_insert_less [OF fin, of ?l "visited s"] True by simp
        then have "card (?X - insert ?l (visited ?s1)) < k" using Cons.prems by simp
        then obtain nested s2 where n: "discoverFromSitemapIndex k E ?l ?s1 = Some (nested, s2)"
          using assms(2) by (metis surj_pair)
        have "visited s \<subseteq> visited s2" using discoverIndex_grows [OF n] by (simp add: grows_def)
        then have "card (?X - visited s2) \<le> k"
          using card_Diff_mono [OF fin] Cons.prems by (meson le_trans)
        then show ?thesis using Cons.IH True Some idx n
          by (simp add: discoverEntries_Cons del: discover_simps_off)
      qed
    qed
  qed
qed

lemma discoverIndex_returns:
  assumes fin: "finite {u. probedAsIndex E u}"
  shows "card ({u. probedAsIndex E u} - insert u (visited s)) < k
         \<Longrightarrow> \<exists>r. discoverFromSitemapIndex k E u s = Some r"
proof (induction k arbitrary: u s)
  case 0
  then show ?case by simp
next
  case (Suc k)
  have "card ({u. probedAsIndex E u} - visited (expanding s u)) \<le> k"
    using Suc.prems by (simp add: expanding_def)
  then have "\<exists>r. discoverEntries k E es [] (expanding s u) = Some r" for es
    using discoverEntries_returns [OF fin] Suc.IH by blast
  then show ?case
    by (auto simp: discoverFromSitemapIndex_Suc simp del: discover_simps_off split: option.splits)
qed

lemma discoverEntries_more_fuel:
  assumes "\<And>u s r. discoverFromSitemapIndex k E u s = Some r
             \<Longrightarrow> discoverFromSitemapIndex (Suc k) E u s = Some r"
  shows "discoverEntries k E es acc s = Some r \<Longrightarrow> discoverEntries (Suc k) E es acc s = Some r"
proof (induction es arbitrary: acc s)
  case Nil
  then show ?case by simp
next
  case (Cons e es)
  let ?l = "the (raw_loc e)"
  let ?s1 = "s\<lparr>fetched := fetched s @ [(ByCheckSitemap, ?l)]\<rparr>"
  show ?case
  proof (cases "hasLoc e \<and> isValidUrl E ?l \<and> ?l \<notin> visited s")
    case False
    then show ?thesis using Cons.prems Cons.IH
      by (auto simp: discoverEntries_Cons simp del: discover_simps_off)
  next
    case True
    show ?thesis
    proof (cases "fst (checkSitemap E ?l from_sitemap_index freshState)")
      case None
      then show ?thesis using Cons.prems Cons.IH True
        by (simp add: discoverEntries_Cons del: discover_simps_off)
    next
      case (Some sm)
      show ?thesis
      proof (cases "ds_type sm = sitemap_index")
        case False
        then show ?thesis using Cons.prems Cons.IH True Some
          by (simp add: discoverEntries_Cons del: discover_simps_off)
      next
        case idx: True
        then obtain nested s2 where
          n: "discoverFromSitemapIndex k E ?l ?s1 = Some (nested, s2)"
          and r: "discoverEntries k E es (acc @ [sm] @ nested) s2 = Some r"
          using Cons.prems True Some
          by (auto simp: discoverEntries_Cons simp del: discover_simps_off split: option.splits)
        show ?thesis using assms [OF n] Cons.IH [OF r] True Some idx
          by (simp add: discoverEntries_Cons del: discover_simps_off)
      qed
    qed
  qed
qed

lemma discoverIndex_Suc_fuel:
  "discoverFromSitemapIndex k E u s = Some r \<Longrightarrow> discoverFromSitemapIndex (Suc k) E u s = Some r"
proof (induction k arbitrary: u s r)
  case 0
  then show ?case by simp
next
  case (Suc k)
  have "discoverEntries k E es [] (expanding s u) = Some r
        \<Longrightarrow> discoverEntries (Suc k) E es [] (expanding s u) = Some r" for es
    using discoverEntries_more_fuel Suc.IH by blast
  then show ?case using Suc.prems
    by (subst discoverFromSitemapIndex_Suc, subst (asm) discoverFromSitemapIndex_Suc)
       (auto simp del: discover_simps_off split: option.splits if_splits)
qed

lemma discoverIndex_add_fuel:
  "discoverFromSitemapIndex k E u s = Some r \<Longrightarrow> discoverFromSitemapIndex (k + d) E u s = Some r"
proof (induction d)
  case 0
  then show ?case by (simp only: add_0_right)
next
  case (Suc d)
  show ?case using discoverIndex_Suc_fuel [OF Suc.IH [OF Suc.prems]] by (simp only: add_Suc_right)
qed

lemma discoverIndex_total:
  assumes "finite {u. probedAsIndex E u}"
  shows "\<exists>r. \<forall>k > card {u. probedAsIndex E u}. discoverFromSitemapIndex k E u s = Some r"
proof -
  let ?X = "{u. probedAsIndex E u}"
  have "card (?X - insert u (visited s)) < Suc (card ?X)"
    using card_mono [OF assms, of "?X - insert u (visited s)"] by auto
  then obtain r where r: "discoverFromSitemapIndex (Suc (card ?X)) E u s = Some r"
    using discoverIndex_returns [OF assms] by blast
  have "discoverFromSitemapIndex k E u s = Some r" if "k > card ?X" for k
    using discoverIndex_add_fuel [OF r, of "k - Suc (card ?X)"] that by simp
  then show ?thesis by blast
qed

lemma logged_fresh: "logged who freshState"
  by (simp add: logged_def fetchedBy_def freshState_def)

text \<open>
  Claim C5, amended. When only finitely many URLs deliver an index, the collection of the
  frontier builder and the index expansion of the discoverer return from any state, with
  the same result for every bound above the number of those URLs: cycles do not matter.
  Started with nothing visited, the collection fetches no URL twice, and the expansion
  expands no URL twice. (The expansion does fetch a child index a second time, see the
  counterexample: a probe classified it first.)
\<close>

theorem traversals_terminate:
  assumes "finite {u. indexDocument E u}" and "finite {u. probedAsIndex E u}"
  shows "(\<exists>r. \<forall>k > card {u. indexDocument E u}. collectUrlsFromSitemap k E u rules m s = Some r)
       \<and> (\<exists>r. \<forall>k > card {u. probedAsIndex E u}. discoverFromSitemapIndex k E u s = Some r)
       \<and> (\<forall>k r s'. collectUrlsFromSitemap k E u rules m freshState = Some (r, s')
             \<longrightarrow> distinct (fetchedBy ByFetchSitemap s'))
       \<and> (\<forall>k r s'. discoverFromSitemapIndex k E u freshState = Some (r, s')
             \<longrightarrow> distinct (fetchedBy ByIndexExpansion s'))"
proof -
  have c: "distinct (fetchedBy ByFetchSitemap s')"
    if "collectUrlsFromSitemap k E u rules m freshState = Some (r, s')" for k r s'
    using collectUrls_grows [OF that] logged_fresh by (simp add: grows_def logged_def)
  have d: "distinct (fetchedBy ByIndexExpansion s')"
    if "discoverFromSitemapIndex k E u freshState = Some (r, s')" for k r s'
    using discoverIndex_grows [OF that] logged_fresh by (simp add: grows_def logged_def)
  show ?thesis
    using collectUrls_total [OF assms(1)] discoverIndex_total [OF assms(2)] c d by blast
qed

text \<open>
  On the cycle of \<open>/sitemap.xml\<close> and \<open>/b.xml\<close> the expansion fetches \<open>/b.xml\<close> twice,
  once in \<open>checkSitemap\<close> and once to expand it; and a call of the frontier builder
  fetches \<open>/sitemap.xml\<close> and \<open>/pages.xml\<close> in the discovery and again in the collection.
\<close>

theorem cycle_fetches_twice_counterexample:
  "map_option (\<lambda>r. map snd (fetched (snd r)))
     (discoverFromSitemapIndex 3 demoEnv ''https://example.com/sitemap.xml'' freshState) =
     Some [''https://example.com/sitemap.xml'', ''https://example.com/b.xml'',
           ''https://example.com/b.xml'', ''https://example.com/pages.xml'']
   \<and> map_option (\<lambda>r. map snd (fetched (snd r)))
     (buildCrawlFrontier 3 demoEnv ''example.com'' None None freshState) =
     Some [''https://example.com/sitemap.xml'', ''https://example.com/robots.txt'',
           ''https://example.com/pages.xml'', ''https://example.com/sitemap_index.xml'',
           ''https://example.com/sitemap.xml.gz'', ''https://example.com/sitemaps/sitemap.xml'',
           ''https://example.com/sitemap.xml'', ''https://example.com/b.xml'',
           ''https://example.com/pages.xml'']"
  by code_simp

lemma demoFetch_cases:
  "u \<noteq> ''https://example.com/sitemap.xml'' \<Longrightarrow> u \<noteq> ''https://example.com/b.xml'' \<Longrightarrow>
   demoFetch u = Inr (demoResponse ''<urlset>pages'') \<or> demoFetch u = Inr (demoResponse ''<urlset>big'')
   \<or> demoFetch u = Inr (demoResponse ''<p>no <sitemapindex here'')
   \<or> demoFetch u = Inr (demoResponse ''Sitemap: https://example.com/pages.xml'')
   \<or> demoFetch u = Inl abortError
   \<or> demoFetch u = Inr ((demoResponse ''Not Found'')\<lparr>status := 404, statusText := ''Not Found''\<rparr>)"
  unfolding demoFetch_def by presburger

lemma demoXml_not_index:
  "c = ''<urlset>pages'' \<or> c = ''<urlset>big'' \<or> c = ''<p>no <sitemapindex here''
   \<or> c = ''Sitemap: https://example.com/pages.xml''
   \<Longrightarrow> (case demoXml c of Inl t \<Rightarrow> True | Inr d \<Rightarrow> sitemapindex_sitemap d = None)"
  by (elim disjE) (simp_all add: demoXml_def)

lemma demoResponse_body: "readBody u (demoResponse b) = (if endsWith u ''.gz'' then gunzipBody (demoResponse b) else Inr b)"
  by (simp add: readBody_def demoResponse_def)

lemma demoResponse_gunzip: "gunzipBody (demoResponse b) = Inl (ErrorObj ''Error'' ''incorrect header check'')"
  by (simp add: demoResponse_def)

lemma parse_not_index: "sitemapindex_sitemap d = None \<Longrightarrow> \<not> isIndex (parseSitemapContent d)"
  by (simp add: parseSitemapContent_def split: option.splits)

lemma demo_not_index:
  assumes "u \<noteq> ''https://example.com/sitemap.xml''" "u \<noteq> ''https://example.com/b.xml''"
  shows "\<not> indexDocument demoEnv u"
proof -
  have x: "xmlParse demoEnv = demoXml" and f: "fetchUrl demoEnv = demoFetch" by (simp_all add: demoEnv_def)
  have nf: "\<not> ok ((demoResponse ''Not Found'')\<lparr>status := 404, statusText := ''Not Found''\<rparr>)"
    by (simp add: ok_def)
  have body: "\<not> indexDocument demoEnv u" if "demoFetch u = Inr (demoResponse c)"
    and "(case demoXml c of Inl t \<Rightarrow> True | Inr d \<Rightarrow> sitemapindex_sitemap d = None)" for c
    using that parse_not_index
    by (auto simp: indexDocument_def fetchSitemap_def fetchWithTimeout_def x f demoResponse_ok
        demoResponse_body demoResponse_gunzip split: sum.splits)
  from demoFetch_cases [OF assms] show ?thesis
  proof (elim disjE)
    assume "demoFetch u = Inl abortError"
    then show ?thesis by (simp add: indexDocument_def fetchSitemap_def fetchWithTimeout_def f)
  next
    assume "demoFetch u = Inr ((demoResponse ''Not Found'')\<lparr>status := 404, statusText := ''Not Found''\<rparr>)"
    then show ?thesis using nf by (simp add: indexDocument_def fetchSitemap_def fetchWithTimeout_def f)
  qed (rule body, assumption, rule demoXml_not_index, simp)+
qed

lemma demo_is_index:
  "indexDocument demoEnv ''https://example.com/sitemap.xml''" "indexDocument demoEnv ''https://example.com/b.xml''"
  by code_simp+

lemma demo_index_documents:
  "{u. indexDocument demoEnv u} = {''https://example.com/sitemap.xml'', ''https://example.com/b.xml''}"
  using demo_not_index demo_is_index by blast

lemma demoFetch_cases3:
  "u \<noteq> ''https://example.com/sitemap.xml'' \<Longrightarrow> u \<noteq> ''https://example.com/b.xml'' \<Longrightarrow>
   u \<noteq> ''https://example.com/odd.html'' \<Longrightarrow>
   demoFetch u = Inr (demoResponse ''<urlset>pages'') \<or> demoFetch u = Inr (demoResponse ''<urlset>big'')
   \<or> demoFetch u = Inr (demoResponse ''Sitemap: https://example.com/pages.xml'')
   \<or> demoFetch u = Inl abortError
   \<or> demoFetch u = Inr ((demoResponse ''Not Found'')\<lparr>status := 404, statusText := ''Not Found''\<rparr>)"
  unfolding demoFetch_def by presburger

lemma demo_no_tag:
  "c = ''<urlset>pages'' \<or> c = ''<urlset>big'' \<or> c = ''Sitemap: https://example.com/pages.xml''
   \<Longrightarrow> \<not> includesStr c ''<sitemapindex'' \<and> \<not> includesStr c ''<sitemapindex>''"
  by (elim disjE) simp_all

lemma demo_not_probed:
  assumes "u \<noteq> ''https://example.com/sitemap.xml''" "u \<noteq> ''https://example.com/b.xml''"
    "u \<noteq> ''https://example.com/odd.html''"
  shows "\<not> probedAsIndex demoEnv u"
proof -
  have f: "fetchUrl demoEnv = demoFetch" by (simp add: demoEnv_def)
  have nf: "\<not> ok ((demoResponse ''Not Found'')\<lparr>status := 404, statusText := ''Not Found''\<rparr>)"
    by (simp add: ok_def)
  have body: "\<not> probedAsIndex demoEnv u" if "demoFetch u = Inr (demoResponse c)"
    and "\<not> includesStr c ''<sitemapindex'' \<and> \<not> includesStr c ''<sitemapindex>''" for c
    using that
    by (auto simp: probedAsIndex_def checkSitemap_def fetchWithTimeout_def f demoResponse_ok
        demoResponse_body demoResponse_gunzip Let_def split: sum.splits)
  from demoFetch_cases3 [OF assms] show ?thesis
  proof (elim disjE)
    assume "demoFetch u = Inl abortError"
    then show ?thesis by (simp add: probedAsIndex_def checkSitemap_def fetchWithTimeout_def f)
  next
    assume "demoFetch u = Inr ((demoResponse ''Not Found'')\<lparr>status := 404, statusText := ''Not Found''\<rparr>)"
    then show ?thesis using nf by (simp add: probedAsIndex_def checkSitemap_def fetchWithTimeout_def f)
  qed (rule body, assumption, rule demo_no_tag, simp)+
qed

lemma demo_is_probed:
  "probedAsIndex demoEnv ''https://example.com/sitemap.xml''" "probedAsIndex demoEnv ''https://example.com/b.xml''"
  "probedAsIndex demoEnv ''https://example.com/odd.html''"
  by code_simp+

lemma demo_probed_indexes:
  "{u. probedAsIndex demoEnv u} =
     {''https://example.com/sitemap.xml'', ''https://example.com/b.xml'', ''https://example.com/odd.html''}"
  using demo_not_probed demo_is_probed by blast

theorem traversals_terminate_witness:
  "collectUrlsFromSitemap 3 demoEnv ''https://example.com/sitemap.xml'' (normalizeRules None) 100 freshState
     = collectUrlsFromSitemap 7 demoEnv ''https://example.com/sitemap.xml'' (normalizeRules None) 100 freshState
   \<and> collectUrlsFromSitemap 3 demoEnv ''https://example.com/sitemap.xml'' (normalizeRules None) 100 freshState
     \<noteq> None
   \<and> discoverFromSitemapIndex 4 demoEnv ''https://example.com/sitemap.xml'' freshState
     = discoverFromSitemapIndex 9 demoEnv ''https://example.com/sitemap.xml'' freshState
   \<and> discoverFromSitemapIndex 4 demoEnv ''https://example.com/sitemap.xml'' freshState \<noteq> None"
proof -
  have f1: "finite {u. indexDocument demoEnv u}" by (simp add: demo_index_documents)
  have f2: "finite {u. probedAsIndex demoEnv u}" by (simp add: demo_probed_indexes)
  have c1: "card {u. indexDocument demoEnv u} = 2" by (simp add: demo_index_documents)
  have c2: "card {u. probedAsIndex demoEnv u} = 3" by (simp add: demo_probed_indexes)
  note t = traversals_terminate [OF f1 f2, of "''https://example.com/sitemap.xml''" "normalizeRules None" 100 freshState]
  obtain r where r: "\<forall>k>2. collectUrlsFromSitemap k demoEnv ''https://example.com/sitemap.xml''
                          (normalizeRules None) 100 freshState = Some r"
    using t unfolding c1 by blast
  obtain q where q: "\<forall>k>3. discoverFromSitemapIndex k demoEnv ''https://example.com/sitemap.xml'' freshState = Some q"
    using t unfolding c2 by blast
  have "(2::nat) < 3" "(2::nat) < 7" "(3::nat) < 4" "(3::nat) < 9" by simp_all
  then show ?thesis using r q by (metis option.distinct(1))
qed

section \<open>The frontier: distinct URLs within the limit\<close>














end
